theory Spec2Isabelle
  imports Complex_Main
begin

section \<open>The icon generator module (src/p5-sketch/generator.ts)\<close>

text \<open>
  JavaScript numbers are modelled by \<open>real\<close> (finite values; \<open>NaN\<close> and the infinities
  are outside the model), counters and array indices by \<open>nat\<close>, parsed form input by
  \<open>int\<close>. Strings are ASCII \<open>string\<close>s; the Japanese display labels are kept as their
  UTF-8 bytes.
\<close>

subsection \<open>Categories\<close>

record SymbolCategory =
  cid :: nat
  key :: string
  label :: string

definition DEFAULT_CANVAS_SIZE :: real where
  "DEFAULT_CANVAS_SIZE = 28"

definition SYMBOL_CATEGORIES :: "SymbolCategory list" where
  "SYMBOL_CATEGORIES =
    [\<lparr>cid = 0, key = ''city-hall'',
       label = [CHR 0xE5, CHR 0xB8, CHR 0x82, CHR 0xE5, CHR 0xBD, CHR 0xB9, CHR 0xE6, CHR 0x89,
                CHR 0x80, CHR 0x2F, CHR 0xE5, CHR 0xBD, CHR 0xB9, CHR 0xE6, CHR 0x89, CHR 0x80]\<rparr>,
     \<lparr>cid = 1, key = ''police-box'',
       label = [CHR 0xE4, CHR 0xBA, CHR 0xA4, CHR 0xE7, CHR 0x95, CHR 0xAA]\<rparr>,
     \<lparr>cid = 2, key = ''high-school'',
       label = [CHR 0xE9, CHR 0xAB, CHR 0x98, CHR 0xE7, CHR 0xAD, CHR 0x89, CHR 0xE5, CHR 0xAD,
                CHR 0xA6, CHR 0xE6, CHR 0xA0, CHR 0xA1]\<rparr>,
     \<lparr>cid = 3, key = ''post-office'',
       label = [CHR 0xE9, CHR 0x83, CHR 0xB5, CHR 0xE4, CHR 0xBE, CHR 0xBF, CHR 0xE5, CHR 0xB1,
                CHR 0x80]\<rparr>,
     \<lparr>cid = 4, key = ''hospital'',
       label = [CHR 0xE7, CHR 0x97, CHR 0x85, CHR 0xE9, CHR 0x99, CHR 0xA2]\<rparr>,
     \<lparr>cid = 5, key = ''shrine'',
       label = [CHR 0xE7, CHR 0xA5, CHR 0x9E, CHR 0xE7, CHR 0xA4, CHR 0xBE]\<rparr>,
     \<lparr>cid = 6, key = ''temple'',
       label = [CHR 0xE5, CHR 0xAF, CHR 0xBA, CHR 0xE9, CHR 0x99, CHR 0xA2]\<rparr>,
     \<lparr>cid = 7, key = ''museum'',
       label = [CHR 0xE5, CHR 0x8D, CHR 0x9A, CHR 0xE7, CHR 0x89, CHR 0xA9, CHR 0xE9, CHR 0xA4,
                CHR 0xA8]\<rparr>,
     \<lparr>cid = 8, key = ''factory'',
       label = [CHR 0xE5, CHR 0xB7, CHR 0xA5, CHR 0xE5, CHR 0xA0, CHR 0xB4]\<rparr>,
     \<lparr>cid = 9, key = ''castle-ruins'',
       label = [CHR 0xE5, CHR 0x9F, CHR 0x8E, CHR 0xE8, CHR 0xB7, CHR 0xA1]\<rparr>]"

subsection \<open>The memoised generator promise\<close>

text \<open>
  \<open>generatorPromise\<close> is the module variable; a promise is identified by the number of
  the \<open>createGenerator\<close> call that made it, and \<open>created\<close> counts those calls (each
  one constructs a p5 instance).
\<close>

record generator_module =
  generatorPromise :: "nat option"
  created :: nat

definition module_start :: generator_module where
  "module_start = \<lparr>generatorPromise = None, created = 0\<rparr>"

definition createGenerator :: "generator_module \<Rightarrow> nat \<times> generator_module" where
  "createGenerator m = (created m, m\<lparr>created := Suc (created m)\<rparr>)"

definition getIconGenerator :: "generator_module \<Rightarrow> nat \<times> generator_module" where
  "getIconGenerator m =
     (case generatorPromise m of
        None \<Rightarrow>
          (let (pr, m') = createGenerator m
           in (pr, m'\<lparr>generatorPromise := Some pr\<rparr>))
      | Some pr \<Rightarrow> (pr, m))"

text \<open>\<open>n\<close> successive calls of \<open>getIconGenerator\<close>: the promises returned, in order.\<close>

fun acquire_times :: "nat \<Rightarrow> generator_module \<Rightarrow> nat list \<times> generator_module" where
  "acquire_times 0 m = ([], m)"
| "acquire_times (Suc n) m =
     (let (pr, m1) = getIconGenerator m;
          (prs, m2) = acquire_times n m1
      in (pr # prs, m2))"

subsection \<open>The drawing surface, the random source and the helpers\<close>

text \<open>
  A \<open>p5.Graphics\<close> object is modelled by the calls made on it, in order. The state a
  drawer works on holds the source of uniform samples behind \<open>p.random\<close> (the value
  of its \<open>k\<close>-th draw and the number of draws so far), the module variable
  \<open>currentScale\<close>, whether the browser exposes the offscreen canvas element, and the
  calls made on the current graphics object \<open>g\<close>.
\<close>

datatype gcall =
    CreateGraphics real real
  | PixelDensity real
  | Background real
  | Stroke real
  | Fill real
  | NoFill
  | StrokeCapSquare
  | StrokeJoinMiter
  | ImageSmoothingOff
  | Push
  | Pop
  | Translate real real
  | Rotate real
  | Scale real
  | StrokeWeight real
  | Circle real real real
  | Line real real real real
  | BeginShape
  | Vertex real real
  | EndShape bool
  | Remove

datatype exn =
    UnknownCategory real
  | DrawerNotFound string
  | CanvasUnavailable
  | ZipFolderFailed string
  | Thrown string

record sketch =
  uniform :: "nat \<Rightarrow> real"
  draws :: nat
  currentScale :: real
  canvas_ok :: bool
  g :: "gcall list"

record icon =
  width :: real
  height :: real
  rendering :: "gcall list"

text \<open>
  \<open>rnd s k lo hi\<close> is the value of the \<open>k\<close>-th next call \<open>p.random(lo, hi)\<close> from
  state \<open>s\<close> (p5 swaps the two bounds when the first is the larger one and computes
  \<open>rand * (max - min) + min\<close>); \<open>emit cs n\<close> appends the calls \<open>cs\<close> to \<open>g\<close>
  and records that \<open>n\<close> samples were drawn while making them.
\<close>

definition rnd :: "sketch \<Rightarrow> nat \<Rightarrow> real \<Rightarrow> real \<Rightarrow> real" where
  "rnd s k lo hi =
     (if hi < lo then uniform s (draws s + k) * (lo - hi) + hi
      else uniform s (draws s + k) * (hi - lo) + lo)"

definition emit :: "gcall list \<Rightarrow> nat \<Rightarrow> sketch \<Rightarrow> sketch" where
  "emit cs n s = s\<lparr>g := g s @ cs, draws := draws s + n\<rparr>"

definition radians :: "real \<Rightarrow> real" where
  "radians deg = deg * pi / 180"

definition toPx :: "real \<Rightarrow> real \<Rightarrow> real" where
  "toPx v sz = v * sz"

definition jitter :: "sketch \<Rightarrow> real \<Rightarrow> real \<Rightarrow> real" where
  "jitter s sz amount = rnd s 0 (- sz * amount) (sz * amount)"

text \<open>
  \<open>stroke(size, factor = 0.06)\<close> reads the scale slot. (The slot is never \<open>0\<close>
  in the program; HOL's \<open>x / 0 = 0\<close> is not JavaScript's.)
\<close>

definition stroke :: "sketch \<Rightarrow> real \<Rightarrow> real \<Rightarrow> real" where
  "stroke s sz factor = max 1 ((sz * factor) / currentScale s)"

definition vary :: "sketch \<Rightarrow> real \<Rightarrow> real \<Rightarrow> real" where
  "vary s v ratio = v * rnd s 0 (1 - ratio) (1 + ratio)"

subsection \<open>The transform envelope\<close>

text \<open>
  \<open>draw\<close> is the callback; it returns \<open>Some e\<close> when it throws \<open>e\<close>. The
  \<open>finally\<close> block runs on both paths and the exception, if any, propagates.
\<close>

definition applySymbolTransform ::
  "real \<Rightarrow> (sketch \<Rightarrow> exn option \<times> sketch) \<Rightarrow> sketch \<Rightarrow> exn option \<times> sketch" where
  "applySymbolTransform sz draw s =
     (let center = sz / 2;
          rotation = radians (rnd s 0 (- 20) 20);
          sc = rnd s 1 0.5 1;
          s1 = emit [Push,
                     Translate center center,
                     Rotate rotation,
                     Scale sc,
                     Translate (sz * rnd s 2 (- 0.05) 0.05) (sz * rnd s 3 (- 0.05) 0.05)]
                 4 (s\<lparr>currentScale := sc\<rparr>);
          (thrown, s2) = draw s1
      in (thrown, (emit [Pop] 0 s2)\<lparr>currentScale := 1\<rparr>))"

subsection \<open>The drawers\<close>

type_synonym SymbolDrawer = "real \<Rightarrow> sketch \<Rightarrow> sketch"

definition drawCityHall :: SymbolDrawer where
  "drawCityHall sz s =
     emit [Push,
           NoFill,
           StrokeWeight (sz * rnd s 0 0.05 0.08),
           Circle 0 0 (sz * rnd s 1 0.7 0.8),
           StrokeWeight (sz * rnd s 2 0.04 0.06),
           Circle 0 0 (sz * rnd s 3 0.5 0.6),
           Pop] 4 s"

definition drawPoliceBox :: SymbolDrawer where
  "drawPoliceBox sz s =
     emit [Push,
           StrokeWeight (sz * rnd s 0 0.07 0.1),
           Line (- sz * 0.3) (- sz * 0.3) (sz * 0.3) (sz * 0.3),
           Line (- sz * 0.3) (sz * 0.3) (sz * 0.3) (- sz * 0.3),
           Pop] 1 s"

definition drawHighSchool :: SymbolDrawer where
  "drawHighSchool sz s =
     (let r = sz * rnd s 0 0.3 0.4
      in emit [Push,
               NoFill,
               StrokeWeight (sz * rnd s 1 0.07 0.1),
               Circle 0 0 (sz * rnd s 2 0.7 0.8),
               Line 0 (- r) 0 (- r * 0.35),
               Line (- r * 0.95) (- r * 0.35) (r * 0.95) (- r * 0.35),
               Line (- r * 0.6) (- r * 0.35) (r * 0.6) (r * 0.9),
               Line (r * 0.6) (- r * 0.35) (- r * 0.6) (r * 0.9),
               Pop] 3 s)"

definition drawPostOffice :: SymbolDrawer where
  "drawPostOffice sz s =
     (let r = sz * rnd s 0 0.3 0.4
      in emit [Push,
               NoFill,
               StrokeWeight (sz * rnd s 1 0.07 0.1),
               Circle 0 0 (sz * rnd s 2 0.7 0.8),
               Line (- r * 0.95) (- r * 0.15) (r * 0.95) (- r * 0.15),
               Line (- r * 0.95) (- r * 0.55) (r * 0.95) (- r * 0.55),
               Line 0 (- r * 0.15) 0 (r * 0.95),
               Pop] 3 s)"

definition drawHospital :: SymbolDrawer where
  "drawHospital sz s =
     (let r = sz * rnd s 0 0.3 0.4
      in emit [Push,
               NoFill,
               StrokeWeight (sz * rnd s 1 0.07 0.1),
               BeginShape,
               Vertex (- r * 0.8) (- r * 0.8),
               Vertex (- r * 0.8) (r * 0.35),
               Vertex 0 (r * 0.8),
               Vertex (r * 0.8) (r * 0.35),
               Vertex (r * 0.8) (- r * 0.8),
               EndShape True,
               Line (- r * 0.6) 0 (r * 0.6) 0,
               Line 0 (- r * 0.6) 0 (r * 0.6),
               Pop] 2 s)"

definition drawShrine :: SymbolDrawer where
  "drawShrine sz s =
     emit [Push,
           StrokeWeight (sz * rnd s 0 0.07 0.1),
           Line (- sz * 0.3) (sz * 0.4) (- sz * 0.3) (- sz * 0.4),
           Line (sz * 0.3) (sz * 0.4) (sz * 0.3) (- sz * 0.4),
           Line (- sz * 0.5) (- sz * 0.4) (sz * 0.5) (- sz * 0.4),
           Line (- sz * 0.3) (- sz * 0.1) (sz * 0.3) (- sz * 0.1),
           Pop] 1 s"

definition drawTemple :: SymbolDrawer where
  "drawTemple sz s =
     (let l = rnd s 1 0.2 0.3 * sz
      in emit ([Push,
                NoFill,
                StrokeWeight (sz * rnd s 0 0.07 0.1)]
               @ concat (map (\<lambda>i. [Push,
                                     Rotate (real i * pi / 2),
                                     BeginShape,
                                     Vertex (- l) (- l),
                                     Vertex 0 (- l),
                                     Vertex 0 0,
                                     EndShape False,
                                     Pop]) [0..<4])
               @ [Pop]) 2 s)"

definition drawMuseum :: SymbolDrawer where
  "drawMuseum sz s =
     (let y1 = - sz * rnd s 0 0.3 0.4;
          y2 = sz * rnd s 1 (- 0.1) 0.1;
          y3 = sz * rnd s 2 0.3 0.4;
          x0 = - sz * rnd s 3 0.45 0.5;
          x1 = - sz * rnd s 4 0.35 0.45;
          x2 = - sz * rnd s 5 0.15 0.25;
          x3 = \<bar>x2\<bar>;
          x4 = \<bar>x1\<bar>;
          x5 = \<bar>x0\<bar>
      in emit [Push,
               StrokeWeight (sz * rnd s 6 0.07 0.1),
               Line 0 y1 x1 y2,
               Line 0 y1 x4 y2,
               Line x0 y2 x5 y2,
               Line x1 y2 x1 y3,
               Line x2 y2 x2 y3,
               Line x3 y2 x3 y3,
               Line x4 y2 x4 y3,
               Line x0 y3 x5 y3,
               Pop] 7 s)"

definition drawFactory :: SymbolDrawer where
  "drawFactory sz s =
     (let r = sz * rnd s 0 0.2 0.3
      in emit ([Push,
                NoFill,
                StrokeWeight (sz * rnd s 1 0.07 0.1),
                Circle 0 0 (r * 2)]
               @ concat (map (\<lambda>i. [Push,
                                     Rotate (real i * pi / 4),
                                     Line r 0 (r * 1.8) 0,
                                     Pop]) [0..<8])
               @ [Pop]) 2 s)"

definition drawCastleRuins :: SymbolDrawer where
  "drawCastleRuins sz s =
     (let x1 = - sz * rnd s 0 0.4 0.5;
          x2 = - sz * rnd s 1 0.15 0.25;
          x3 = \<bar>x2\<bar>;
          x4 = \<bar>x1\<bar>;
          y1 = - sz * rnd s 2 0.4 0.5;
          y2 = - sz * rnd s 3 0.05 0.15;
          y3 = sz * rnd s 4 0.4 0.5
      in emit [Push,
               NoFill,
               StrokeWeight (sz * rnd s 5 0.07 0.1),
               BeginShape,
               Vertex x1 y3,
               Vertex x1 y2,
               Vertex x2 y2,
               Vertex x2 y1,
               Vertex x3 y1,
               Vertex x3 y2,
               Vertex x4 y2,
               Vertex x4 y3,
               EndShape False,
               Pop] 6 s)"

text \<open>The categories without a design yet: an empty \<open>push\<close>/\<open>pop\<close> pair.\<close>

definition drawHotSpring :: SymbolDrawer where
  "drawHotSpring sz s = emit [Push, Pop] 0 s"

definition drawFishingPort :: SymbolDrawer where
  "drawFishingPort sz s = emit [Push, Pop] 0 s"

definition drawOrchard :: SymbolDrawer where
  "drawOrchard sz s = emit [Push, Pop] 0 s"

definition drawBroadleafForest :: SymbolDrawer where
  "drawBroadleafForest sz s = emit [Push, Pop] 0 s"

definition drawConiferousForest :: SymbolDrawer where
  "drawConiferousForest sz s = emit [Push, Pop] 0 s"

definition drawLibrary :: SymbolDrawer where
  "drawLibrary sz s = emit [Push, Pop] 0 s"

definition drawWindmill :: SymbolDrawer where
  "drawWindmill sz s = emit [Push, Pop] 0 s"

definition DRAWERS_BY_KEY :: "(string \<times> SymbolDrawer) list" where
  "DRAWERS_BY_KEY =
    [(''city-hall'', drawCityHall),
     (''police-box'', drawPoliceBox),
     (''high-school'', drawHighSchool),
     (''post-office'', drawPostOffice),
     (''hospital'', drawHospital),
     (''shrine'', drawShrine),
     (''temple'', drawTemple),
     (''museum'', drawMuseum),
     (''factory'', drawFactory),
     (''castle-ruins'', drawCastleRuins),
     (''hot-spring'', drawHotSpring),
     (''fishing-port'', drawFishingPort),
     (''orchard'', drawOrchard),
     (''broadleaf-forest'', drawBroadleafForest),
     (''coniferous-forest'', drawConiferousForest),
     (''library'', drawLibrary),
     (''windmill'', drawWindmill)]"

text \<open>
  \<open>DRAWERS\<close> is built when the module loads: the drawer of each category in registry
  order, or the exception for the first key without one.
\<close>

fun collect_drawers :: "SymbolCategory list \<Rightarrow> exn + SymbolDrawer list" where
  "collect_drawers [] = Inr []"
| "collect_drawers (c # cs) =
     (case map_of DRAWERS_BY_KEY (key c) of
        None \<Rightarrow> Inl (DrawerNotFound (key c))
      | Some drawer \<Rightarrow>
          (case collect_drawers cs of
             Inl e \<Rightarrow> Inl e
           | Inr ds \<Rightarrow> Inr (drawer # ds)))"

definition DRAWERS :: "SymbolDrawer list" where
  "DRAWERS = (case collect_drawers SYMBOL_CATEGORIES of Inr ds \<Rightarrow> ds | Inl e \<Rightarrow> [])"

subsection \<open>Rendering one icon\<close>

definition isInteger :: "real \<Rightarrow> bool" where
  "isInteger x = (of_int \<lfloor>x\<rfloor> = x)"

definition createIconForCategory :: "real \<Rightarrow> real \<Rightarrow> sketch \<Rightarrow> (exn + icon) \<times> sketch" where
  "createIconForCategory categoryId sz s =
     (if \<not> isInteger categoryId \<or> categoryId < 0
           \<or> categoryId \<ge> real (length SYMBOL_CATEGORIES)
      then (Inl (UnknownCategory categoryId), s)
      else
        (let canvasSize = max 8 (of_int \<lfloor>sz\<rfloor>);
             s1 = s\<lparr>g := [CreateGraphics canvasSize canvasSize,
                           PixelDensity 1,
                           Background 255,
                           Stroke 0,
                           Fill 0,
                           StrokeCapSquare,
                           StrokeJoinMiter,
                           ImageSmoothingOff]\<rparr>;
             (thrown, s2) =
               applySymbolTransform canvasSize
                 (\<lambda>t. (None, (DRAWERS ! nat \<lfloor>categoryId\<rfloor>) canvasSize t)) s1
         in case thrown of
              Some e \<Rightarrow> (Inl e, s2)
            | None \<Rightarrow>
                if canvas_ok s2
                then (Inr \<lparr>width = canvasSize, height = canvasSize, rendering = g s2\<rparr>,
                      emit [Remove] 0 s2)
                else (Inl CanvasUnavailable, s2)))"

text \<open>\<open>generateIcon(categoryId, size = DEFAULT_CANVAS_SIZE)\<close> of the resolved generator.\<close>

definition generateIcon :: "real \<Rightarrow> real option \<Rightarrow> sketch \<Rightarrow> (exn + icon) \<times> sketch" where
  "generateIcon categoryId sz s =
     createIconForCategory categoryId
       (case sz of None \<Rightarrow> DEFAULT_CANVAS_SIZE | Some z \<Rightarrow> z) s"

subsection \<open>Reading a sequence of graphics calls\<close>





text \<open>
  \<open>nesting d cs\<close>: the number of open \<open>push()\<close> calls after \<open>cs\<close>, starting with
  \<open>d\<close> open ones; \<open>None\<close> when some \<open>pop()\<close> has no matching \<open>push()\<close>.
\<close>

fun nesting :: "nat \<Rightarrow> gcall list \<Rightarrow> nat option" where
  "nesting d [] = Some d"
| "nesting d (c # cs) =
     (if c = Push then nesting (Suc d) cs
      else if c = Pop then (case d of 0 \<Rightarrow> None | Suc d' \<Rightarrow> nesting d' cs)
      else nesting d cs)"

definition balanced :: "gcall list \<Rightarrow> bool" where
  "balanced cs = (nesting 0 cs = Some 0)"

text \<open>The weights of the \<open>strokeWeight\<close> calls of a rendering, in order.\<close>

fun stroke_weights :: "gcall list \<Rightarrow> real list" where
  "stroke_weights [] = []"
| "stroke_weights (StrokeWeight w # cs) = w # stroke_weights cs"
| "stroke_weights (c # cs) = stroke_weights cs"

text \<open>
  A sample state for concrete runs: every uniform sample is \<open>1/2\<close>, nothing drawn yet,
  the scale slot neutral, the canvas element available.
\<close>

definition midpoint_source :: "nat \<Rightarrow> real" where
  "midpoint_source k = 1 / 2"

definition sample_sketch :: sketch where
  "sample_sketch =
     \<lparr>uniform = midpoint_source, draws = 0, currentScale = 1, canvas_ok = True, g = []\<rparr>"

section \<open>The page script (src/main.ts)\<close>

definition MAX_PER_CATEGORY :: int where
  "MAX_PER_CATEGORY = 6000"

definition MIN_PIXEL_SIZE :: int where
  "MIN_PIXEL_SIZE = 8"

definition MAX_PIXEL_SIZE :: int where
  "MAX_PIXEL_SIZE = 512"

definition PREVIEW_SIZE :: real where
  "PREVIEW_SIZE = 96"

subsection \<open>The string functions the script uses\<close>

text \<open>
  The JavaScript built-ins, on ASCII strings. \<open>parseInt10 v\<close> is
  \<open>Number.parseInt(v, 10)\<close>, with \<open>None\<close> for \<open>NaN\<close>: leading white space is
  skipped, one sign is read, then the longest run of decimal digits; without a digit the
  result is \<open>NaN\<close>. (Above \<open>2^53\<close> JavaScript rounds the value; the script only
  compares it with small bounds, so the exact integer decides the same way.)
\<close>

definition is_space :: "char \<Rightarrow> bool" where
  "is_space c = (c \<in> set [CHR 0x20, CHR 0x09, CHR 0x0A, CHR 0x0B, CHR 0x0C, CHR 0x0D])"

definition is_digit :: "char \<Rightarrow> bool" where
  "is_digit c = (c \<in> set ''0123456789'')"

definition digit_value :: "char \<Rightarrow> int" where
  "digit_value c = int (of_char c) - 48"

definition parseInt10 :: "string \<Rightarrow> int option" where
  "parseInt10 v =
     (let t = dropWhile is_space v;
          negative = (t \<noteq> [] \<and> hd t = CHR ''-'');
          r = (if t \<noteq> [] \<and> (hd t = CHR ''-'' \<or> hd t = CHR ''+'') then tl t else t);
          ds = takeWhile is_digit r
      in if ds = [] then None
         else Some ((if negative then - 1 else 1) * foldl (\<lambda>a c. 10 * a + digit_value c) 0 ds))"

text \<open>\<open>String(n)\<close> for an integer \<open>n\<close>, and \<open>padStart\<close>.\<close>

definition digit_char :: "nat \<Rightarrow> char" where
  "digit_char d = ''0123456789'' ! d"

function decimal :: "nat \<Rightarrow> string" where
  "decimal n = (if n < 10 then [digit_char n] else decimal (n div 10) @ [digit_char (n mod 10)])"
  by pat_completeness auto
termination
  by (relation "measure (\<lambda>n. n)") auto

definition String_of :: "int \<Rightarrow> string" where
  "String_of n = (if n < 0 then CHR ''-'' # decimal (nat (- n)) else decimal (nat n))"

definition padStart :: "nat \<Rightarrow> char \<Rightarrow> string \<Rightarrow> string" where
  "padStart n c v = replicate (n - length v) c @ v"

text \<open>
  \<open>slugify\<close>, for strings of ASCII characters (every key of the registry is one):
  NFKD normalisation leaves ASCII as it is; \<open>[^\w\s-]\<close> is removed, the ends are
  trimmed, each run of white space becomes one hyphen, letters are lowered. Characters
  outside ASCII, which NFKD would decompose into a base letter and marks, are outside
  the model.
\<close>

definition is_word :: "char \<Rightarrow> bool" where
  "is_word c =
     (c \<in> set ''abcdefghijklmnopqrstuvwxyz'' \<or> c \<in> set ''ABCDEFGHIJKLMNOPQRSTUVWXYZ''
      \<or> is_digit c \<or> c = CHR ''_'')"

definition trim :: "string \<Rightarrow> string" where
  "trim v = rev (dropWhile is_space (rev (dropWhile is_space v)))"

function hyphenate :: "string \<Rightarrow> string" where
  "hyphenate [] = []"
| "hyphenate (c # cs) =
     (if is_space c then CHR ''-'' # hyphenate (dropWhile is_space cs)
      else c # hyphenate cs)"
  by pat_completeness auto
termination
  by (relation "measure length") (auto simp: length_dropWhile_le less_Suc_eq_le)

definition toLowerCase :: "char \<Rightarrow> char" where
  "toLowerCase c =
     (if c \<in> set ''ABCDEFGHIJKLMNOPQRSTUVWXYZ'' then char_of (of_char c + (32 :: nat)) else c)"

definition slugify :: "string \<Rightarrow> string" where
  "slugify v =
     map toLowerCase
       (hyphenate (trim (filter (\<lambda>c. is_word c \<or> is_space c \<or> c = CHR ''-'') v)))"

text \<open>The two name templates of the generation loop.\<close>

definition folderName :: "nat \<Rightarrow> string \<Rightarrow> string" where
  "folderName index k = padStart 2 CHR ''0'' (String_of (int index + 1)) @ ''_'' @ slugify k"

definition fileName :: "int \<Rightarrow> string" where
  "fileName iconIndex = padStart 4 CHR ''0'' (String_of (iconIndex + 1)) @ ''.png''"

subsection \<open>The page state\<close>

text \<open>
  The lines written to the progress area (without their time stamps), one constructor
  for each message text of the script, with the values it interpolates: the generator
  could not be initialised; the count is wrong (1 to 6000); the pixel size is wrong
  (with both bounds); no category is selected; the run starts (categories, count,
  size); a category starts (label, position, number of categories); so many of so many
  icons of a category are made (label, made, count); cancellation was requested; the
  run was cancelled and its data dropped; the archive is being compressed; the run is
  complete and the download started; an error (with the exception); the previews were
  refreshed.
\<close>

datatype message =
    InitFailed
  | BadCount
  | BadPixel int int
  | NoCategorySelected
  | Started nat int int
  | CategoryStarted string nat nat
  | CategoryProgress string int int
  | CancelRequested
  | Cancelled
  | Compressing
  | Finished
  | Failed exn
  | PreviewsRefreshed

text \<open>The calls made on the JSZip object of a run, in order.\<close>

datatype zcall =
    Folder string
  | File string string icon
  | GenerateAsync

text \<open>
  The module variables of the script (\<open>generator\<close> is true when the variable holds
  the generator, \<open>engine\<close> is the p5 sketch behind it), the parts of the DOM it reads
  and writes (the text of the two number inputs, the \<open>disabled\<close> flags of the
  controls, with one flag for all category checkboxes), the calls made on the JSZip
  object of the handler invocation under way, the archives handed to \<open>saveAs\<close>, the
  errors logged to the console, and the number of times the script has yielded to the
  browser.
\<close>

record page =
  engine :: sketch
  generator :: bool
  initialized :: bool
  isGenerating :: bool
  cancelRequested :: bool
  selectedCategories :: "nat set"
  previewImages :: "(nat \<times> icon) list"
  progress :: "message list"
  countInput_value :: string
  pixelInput_value :: string
  generateButton_disabled :: bool
  cancelButton_disabled :: bool
  countInput_disabled :: bool
  pixelInput_disabled :: bool
  refreshButton_disabled :: bool
  checkboxes_disabled :: bool
  zip :: "zcall list"
  saved :: "zcall list list"
  console :: "exn list"
  yields :: nat

text \<open>
  What the script does not decide: whether the user clicks the cancel button while the
  script is suspended in its \<open>k\<close>-th yield, and whether JSZip returns \<open>null\<close> for a
  folder name.
\<close>

record world =
  cancel_clicked :: "nat \<Rightarrow> bool"
  folder_null :: "string \<Rightarrow> bool"

definition appendProgress :: "message \<Rightarrow> bool \<Rightarrow> page \<Rightarrow> page" where
  "appendProgress m reset s = s\<lparr>progress := (if reset then [] else progress s) @ [m]\<rparr>"

definition updateUiState :: "page \<Rightarrow> page" where
  "updateUiState s =
     (let disableInputs = isGenerating s
      in s\<lparr>generateButton_disabled := disableInputs,
           cancelButton_disabled := \<not> isGenerating s,
           countInput_disabled := disableInputs,
           pixelInput_disabled := disableInputs,
           refreshButton_disabled := (disableInputs \<or> \<not> initialized s),
           checkboxes_disabled := disableInputs\<rparr>)"

text \<open>The click handler of the cancel button.\<close>

definition cancel_click :: "page \<Rightarrow> page" where
  "cancel_click s =
     (if \<not> isGenerating s \<or> cancelRequested s then s
      else appendProgress CancelRequested False
             (s\<lparr>cancelRequested := True, cancelButton_disabled := True\<rparr>))"

text \<open>\<open>await yieldToBrowser()\<close>: the handlers of the events that arrived run meanwhile.\<close>

definition yieldToBrowser :: "world \<Rightarrow> page \<Rightarrow> page" where
  "yieldToBrowser E s =
     (let s' = s\<lparr>yields := Suc (yields s)\<rparr>
      in if cancel_clicked E (yields s) then cancel_click s' else s')"

subsection \<open>Refreshing the previews\<close>

fun refresh_loop :: "world \<Rightarrow> nat \<Rightarrow> nat list \<Rightarrow> page \<Rightarrow> exn option \<times> page" where
  "refresh_loop E counter [] s = (None, s)"
| "refresh_loop E counter (categoryId # rest) s =
     (case generateIcon (real categoryId) (Some PREVIEW_SIZE) (engine s) of
        (Inl e, p) \<Rightarrow> (Some e, s\<lparr>engine := p\<rparr>)
      | (Inr dataUrl, p) \<Rightarrow>
          (let s1 = s\<lparr>engine := p,
                      previewImages :=
                        map (\<lambda>(k, image). if k = categoryId then (k, dataUrl) else (k, image))
                          (previewImages s)\<rparr>;
               s2 = (if Suc counter mod 5 = 0 then yieldToBrowser E s1 else s1)
           in refresh_loop E (Suc counter) rest s2))"

definition refreshCategoryPreviews :: "world \<Rightarrow> page \<Rightarrow> exn option \<times> page" where
  "refreshCategoryPreviews E s =
     (if \<not> generator s then (None, s)
      else
        (case refresh_loop E 0 (map fst (previewImages s)) s of
           (Some e, s') \<Rightarrow> (Some e, s')
         | (None, s') \<Rightarrow> (None, appendProgress PreviewsRefreshed False s')))"

subsection \<open>The submit handler\<close>

text \<open>
  The handler first awaits \<open>ensureGenerator()\<close>, which returns at once when
  \<open>generator\<close> is set; the model starts at the test of \<open>generator\<close> that follows,
  so it describes a submission on a page whose generator is set. (With \<open>generator\<close>
  unset the program would first initialise it; the branch of the test for an unset
  generator is kept as the code has it, but the program does not reach it.)
  \<open>submit_checks\<close> is the handler up to the \<open>try\<close> block: \<open>None\<close> when it returned
  early, otherwise the categories, count and size the run works with.
\<close>

definition submit_checks :: "page \<Rightarrow> (SymbolCategory list \<times> int \<times> int) option \<times> page" where
  "submit_checks s =
     (if \<not> generator s then (None, appendProgress InitFailed False s)
      else
        (case parseInt10 (countInput_value s) of
           None \<Rightarrow> (None, appendProgress BadCount False s)
         | Some parsedCount \<Rightarrow>
             if parsedCount \<le> 0 then (None, appendProgress BadCount False s)
             else
               (let perCategory = min MAX_PER_CATEGORY (max 1 parsedCount);
                    s1 = (if perCategory \<noteq> parsedCount
                          then s\<lparr>countInput_value := String_of perCategory\<rparr> else s)
                in case parseInt10 (pixelInput_value s1) of
                     None \<Rightarrow>
                       (None, appendProgress (BadPixel MIN_PIXEL_SIZE MAX_PIXEL_SIZE) False s1)
                   | Some parsedPixel \<Rightarrow>
                       if parsedPixel < MIN_PIXEL_SIZE
                       then (None,
                             appendProgress (BadPixel MIN_PIXEL_SIZE MAX_PIXEL_SIZE) False s1)
                       else
                         (let pixelSize = min MAX_PIXEL_SIZE (max MIN_PIXEL_SIZE parsedPixel);
                              s2 = (if pixelSize \<noteq> parsedPixel
                                    then s1\<lparr>pixelInput_value := String_of pixelSize\<rparr> else s1)
                          in if selectedCategories s2 = {}
                             then (None, appendProgress NoCategorySelected False s2)
                             else
                               (let activeCategories =
                                      filter (\<lambda>category. cid category \<in> selectedCategories s2)
                                        SYMBOL_CATEGORIES;
                                    s3 = updateUiState
                                           (s2\<lparr>zip := [],
                                               cancelRequested := False,
                                               isGenerating := True\<rparr>);
                                    s4 = appendProgress
                                           (Started (length activeCategories) perCategory pixelSize)
                                           True s3
                                in (Some (activeCategories, perCategory, pixelSize), s4))))))"

function icon_loop ::
  "world \<Rightarrow> SymbolCategory \<Rightarrow> string \<Rightarrow> int \<Rightarrow> int \<Rightarrow> int \<Rightarrow> page \<Rightarrow> exn option \<times> page" where
  "icon_loop E category folder perCategory pixelSize iconIndex s =
     (if iconIndex < perCategory
      then
        (if cancelRequested s then (None, s)
         else
           (case generateIcon (real (cid category)) (Some (real_of_int pixelSize)) (engine s) of
              (Inl e, p) \<Rightarrow> (Some e, s\<lparr>engine := p\<rparr>)
            | (Inr dataUrl, p) \<Rightarrow>
                (let s1 = s\<lparr>engine := p,
                            zip := zip s @ [File folder (fileName iconIndex) dataUrl]\<rparr>;
                     s2 = (if (iconIndex + 1) mod 200 = 0 \<or> iconIndex + 1 = perCategory
                           then yieldToBrowser E
                                  (appendProgress
                                     (CategoryProgress (label category) (iconIndex + 1) perCategory)
                                     False s1)
                           else s1)
                 in icon_loop E category folder perCategory pixelSize (iconIndex + 1) s2)))
      else (None, s))"
  by pat_completeness auto
termination
  by (relation "measure (\<lambda>(E, category, folder, perCategory, pixelSize, iconIndex, s).
                  nat (perCategory - iconIndex))") auto

fun category_loop ::
  "world \<Rightarrow> nat \<Rightarrow> int \<Rightarrow> int \<Rightarrow> nat \<Rightarrow> SymbolCategory list \<Rightarrow> page \<Rightarrow> exn option \<times> page" where
  "category_loop E len perCategory pixelSize index [] s = (None, s)"
| "category_loop E len perCategory pixelSize index (category # rest) s =
     (if cancelRequested s then (None, s)
      else
        (let s1 = appendProgress (CategoryStarted (label category) (index + 1) len) False s;
             name = folderName index (key category)
         in if folder_null E name then (Some (ZipFolderFailed name), s1)
            else
              (case icon_loop E category name perCategory pixelSize 0
                      (s1\<lparr>zip := zip s1 @ [Folder name]\<rparr>) of
                 (Some e, s2) \<Rightarrow> (Some e, s2)
               | (None, s2) \<Rightarrow> category_loop E len perCategory pixelSize (index + 1) rest s2)))"

text \<open>The \<open>try\<close>/\<open>catch\<close>/\<open>finally\<close> statement of the handler.\<close>

definition generation :: "world \<Rightarrow> SymbolCategory list \<Rightarrow> int \<Rightarrow> int \<Rightarrow> page \<Rightarrow> page" where
  "generation E activeCategories perCategory pixelSize s =
     (let (thrown, s1) =
            (case category_loop E (length activeCategories) perCategory pixelSize 0
                    activeCategories s of
               (Some e, s') \<Rightarrow> (Some e, s')
             | (None, s') \<Rightarrow>
                 if cancelRequested s' then (None, appendProgress Cancelled False s')
                 else
                   (let s2 = appendProgress Compressing False s';
                        blob = zip s2;
                        s3 = yieldToBrowser E (s2\<lparr>zip := zip s2 @ [GenerateAsync]\<rparr>);
                        s4 = s3\<lparr>saved := saved s3 @ [blob]\<rparr>;
                        s5 = appendProgress Finished False s4
                    in refreshCategoryPreviews E s5));
          s2 = (case thrown of
                  Some e \<Rightarrow> appendProgress (Failed e) False (s1\<lparr>console := console s1 @ [e]\<rparr>)
                | None \<Rightarrow> s1)
      in updateUiState (s2\<lparr>isGenerating := False, cancelRequested := False\<rparr>))"

definition submit :: "world \<Rightarrow> page \<Rightarrow> page" where
  "submit E s =
     (case submit_checks s of
        (None, s') \<Rightarrow> s'
      | (Some (activeCategories, perCategory, pixelSize), s') \<Rightarrow>
          generation E activeCategories perCategory pixelSize s')"

text \<open>
  Sample states for concrete runs: a page whose generator is initialised, with every
  category selected and idle controls (the preview images, which play no part before a
  run has completed, are left out); a world in which nobody clicks and JSZip never
  fails.
\<close>

definition ready_page :: page where
  "ready_page =
     \<lparr>engine = sample_sketch, generator = True, initialized = True, isGenerating = False,
      cancelRequested = False, selectedCategories = {0, 1, 2, 3, 4, 5, 6, 7, 8, 9},
      previewImages = [],
      progress = [], countInput_value = ''100'', pixelInput_value = ''28'',
      generateButton_disabled = False, cancelButton_disabled = True,
      countInput_disabled = False, pixelInput_disabled = False,
      refreshButton_disabled = False, checkboxes_disabled = False,
      zip = [], saved = [], console = [], yields = 0\<rparr>"

definition nobody :: "nat \<Rightarrow> bool" where
  "nobody k = False"

definition never :: "string \<Rightarrow> bool" where
  "never name = False"

definition quiet_world :: world where
  "quiet_world = \<lparr>cancel_clicked = nobody, folder_null = never\<rparr>"

text \<open>The paths of the entries an archive holds, in the order they were added.\<close>

fun archive_paths :: "zcall list \<Rightarrow> string list" where
  "archive_paths [] = []"
| "archive_paths (Folder f # cs) = (f @ ''/'') # archive_paths cs"
| "archive_paths (File f n b # cs) = (f @ ''/'' @ n) # archive_paths cs"
| "archive_paths (GenerateAsync # cs) = archive_paths cs"


definition busy_page :: page where
  "busy_page =
     ready_page\<lparr>isGenerating := True, cancelRequested := True,
                generateButton_disabled := True, countInput_disabled := True,
                pixelInput_disabled := True, refreshButton_disabled := True,
                checkboxes_disabled := True,
                progress := [Started 10 100 28, CancelRequested]\<rparr>"

definition first_yield :: "nat \<Rightarrow> bool" where
  "first_yield k = (k = 0)"

definition impatient_world :: world where
  "impatient_world = \<lparr>cancel_clicked = first_yield, folder_null = never\<rparr>"

definition small_request :: page where
  "small_request = ready_page\<lparr>countInput_value := ''2'', selectedCategories := {1, 3, 4}\<rparr>"

definition hospital_request :: page where
  "hospital_request = ready_page\<lparr>countInput_value := ''7'', selectedCategories := {1, 3, 4}\<rparr>"

section \<open>Facts about the generator module\<close>

subsection \<open>The registry and the dispatch table\<close>

text \<open>
  The recursive equations of \<open>icon_loop\<close> and \<open>decimal\<close> are applied by hand,
  not by the simplifier.
\<close>

declare icon_loop.simps [simp del]

declare decimal.simps [simp del]

lemma DRAWERS_table:
  "DRAWERS = [drawCityHall, drawPoliceBox, drawHighSchool, drawPostOffice, drawHospital,
              drawShrine, drawTemple, drawMuseum, drawFactory, drawCastleRuins]"
  by (simp add: DRAWERS_def SYMBOL_CATEGORIES_def DRAWERS_BY_KEY_def)

lemma length_SYMBOL_CATEGORIES: "length SYMBOL_CATEGORIES = 10"
  by (simp add: SYMBOL_CATEGORIES_def)

lemma registry_lookup:
  "map (\<lambda>c. map_of DRAWERS_BY_KEY (key c)) SYMBOL_CATEGORIES = map Some DRAWERS"
  by (simp add: DRAWERS_table SYMBOL_CATEGORIES_def DRAWERS_BY_KEY_def)

lemma registry_lookup_nth:
  assumes "i < length SYMBOL_CATEGORIES"
  shows "map_of DRAWERS_BY_KEY (key (SYMBOL_CATEGORIES ! i)) = Some (DRAWERS ! i)"
proof -
  have len: "length DRAWERS = length SYMBOL_CATEGORIES"
    using arg_cong [OF registry_lookup, of length] by simp
  have "map (\<lambda>c. map_of DRAWERS_BY_KEY (key c)) SYMBOL_CATEGORIES ! i = map Some DRAWERS ! i"
    by (simp only: registry_lookup)
  with assms len show ?thesis by simp
qed

lemma registry_ids: "map cid SYMBOL_CATEGORIES = [0..<length SYMBOL_CATEGORIES]"
  by (simp add: SYMBOL_CATEGORIES_def upt_rec)

lemma registry_valid: "\<forall>c \<in> set SYMBOL_CATEGORIES. cid c < length SYMBOL_CATEGORIES"
  by (simp add: SYMBOL_CATEGORIES_def)

subsection \<open>The random source\<close>



subsection \<open>Matching push and pop\<close>





subsection \<open>The drawers\<close>

text \<open>
  Every drawer of the dispatch table only appends calls to \<open>g\<close> and draws samples; its
  calls are balanced, it never reads or writes the scale slot, and it leaves the canvas
  flag alone. So rendering an icon of a registered category succeeds whenever the canvas
  element is available.
\<close>

lemma upt4: "[0..<4] = [0, 1, 2, 3]" and upt8: "[0..<8] = [0, 1, 2, 3, 4, 5, 6, 7]"
  by (simp_all add: upt_rec)

lemmas drawer_defs =
  drawCityHall_def drawPoliceBox_def drawHighSchool_def drawPostOffice_def drawHospital_def
  drawShrine_def drawTemple_def drawMuseum_def drawFactory_def drawCastleRuins_def

lemma drawer_emits:
  assumes "d \<in> set DRAWERS"
  shows "\<exists>cs n. d sz s = emit cs n s \<and> balanced cs"
proof -
  have ex: "balanced cs \<Longrightarrow> \<exists>cs' n'. emit cs n s = emit cs' n' s \<and> balanced cs'" for cs n
    by blast
  from assms have "d = drawCityHall \<or> d = drawPoliceBox \<or> d = drawHighSchool
      \<or> d = drawPostOffice \<or> d = drawHospital \<or> d = drawShrine \<or> d = drawTemple
      \<or> d = drawMuseum \<or> d = drawFactory \<or> d = drawCastleRuins"
    by (simp add: DRAWERS_table)
  then show ?thesis
    by (elim disjE) (simp_all only: drawer_defs Let_def, (rule ex, simp add: balanced_def upt4 upt8)+)
qed

lemma drawer_ignores_scale:
  assumes "d \<in> set DRAWERS"
  shows "d sz (s\<lparr>currentScale := c\<rparr>) = (d sz s)\<lparr>currentScale := c\<rparr>"
  using assms unfolding DRAWERS_table
  by (auto simp: drawer_defs Let_def emit_def rnd_def)

lemma drawer_keeps:
  assumes "d \<in> set DRAWERS"
  shows "canvas_ok (d sz s) = canvas_ok s"
  using drawer_emits [OF assms, of sz s] by (auto simp: emit_def)

lemma applySymbolTransform_unfold:
  "applySymbolTransform sz draw s =
     (let entered = s\<lparr>currentScale := rnd s 1 0.5 1,
                       g := g s @ [Push,
                                   Translate (sz / 2) (sz / 2),
                                   Rotate (radians (rnd s 0 (- 20) 20)),
                                   Scale (rnd s 1 0.5 1),
                                   Translate (sz * rnd s 2 (- 0.05) 0.05)
                                             (sz * rnd s 3 (- 0.05) 0.05)],
                       draws := draws s + 4\<rparr>;
          left = snd (draw entered)
      in (fst (draw entered), left\<lparr>g := g left @ [Pop], currentScale := 1\<rparr>))"
  by (simp add: applySymbolTransform_def emit_def Let_def split: prod.split)

lemma isInteger_real: "isInteger (real i)"
  by (simp add: isInteger_def)

lemma createIconForCategory_canvas:
  assumes "i < length SYMBOL_CATEGORIES" "canvas_ok p"
  shows "\<exists>ic p'. createIconForCategory (real i) z p = (Inr ic, p') \<and> canvas_ok p'
           \<and> width ic = max 8 (of_int \<lfloor>z\<rfloor>) \<and> height ic = max 8 (of_int \<lfloor>z\<rfloor>)
           \<and> hd (rendering ic) = CreateGraphics (max 8 (of_int \<lfloor>z\<rfloor>)) (max 8 (of_int \<lfloor>z\<rfloor>))"
proof -
  have "length DRAWERS = 10"
    by (simp add: DRAWERS_table)
  with assms have "i < length DRAWERS"
    by (simp add: length_SYMBOL_CATEGORIES)
  then have mem: "DRAWERS ! i \<in> set DRAWERS"
    by (rule nth_mem)
  have ok: "canvas_ok ((DRAWERS ! i) y t) = canvas_ok t" for y t
    by (rule drawer_keeps [OF mem])
  have first: "hd (g ((DRAWERS ! i) y t) @ zs) = hd (g t)" if "g t \<noteq> []" for y t zs
    using drawer_emits [OF mem, of y t] that by (auto simp: emit_def)
  from assms show ?thesis
    by (simp add: createIconForCategory_def isInteger_real applySymbolTransform_unfold Let_def
          ok emit_def first)
qed

lemma generateIcon_ok:
  assumes "i < length SYMBOL_CATEGORIES" "canvas_ok p"
  shows "\<exists>ic p'. generateIcon (real i) z p = (Inr ic, p') \<and> canvas_ok p'"
  using createIconForCategory_canvas [OF assms] unfolding generateIcon_def by blast

section \<open>Single-flight initialisation\<close>

lemma getIconGenerator_cached:
  "generatorPromise m = Some pr \<Longrightarrow> getIconGenerator m = (pr, m)"
  by (simp add: getIconGenerator_def)

lemma acquire_times_cached:
  "generatorPromise m = Some pr \<Longrightarrow> acquire_times n m = (replicate n pr, m)"
  by (induction n) (simp_all add: getIconGenerator_cached)

lemma getIconGenerator_first:
  "generatorPromise m = None \<Longrightarrow>
   getIconGenerator m =
     (created m, m\<lparr>created := Suc (created m), generatorPromise := Some (created m)\<rparr>)"
  by (simp add: getIconGenerator_def createGenerator_def)

text \<open>
  C9. Every call of \<open>getIconGenerator\<close> returns the same promise: from any module
  state, \<open>n\<close> successive calls all return what the first one returns, and
  \<open>createGenerator\<close> runs at most once among them. From the initial state the first
  call creates promise \<open>0\<close>, every later call returns it, and exactly one generator
  has been created. (Calls are sequential: the function is synchronous and the event
  loop single-threaded, so "concurrent" callers are callers before the promise resolves.)
\<close>

theorem getIconGenerator_single_flight:
  "fst (acquire_times n m) = replicate n (fst (getIconGenerator m))
   \<and> created (snd (acquire_times n m)) \<le> Suc (created m)
   \<and> acquire_times (Suc n) module_start =
       (replicate (Suc n) 0, \<lparr>generatorPromise = Some 0, created = Suc 0\<rparr>)"
proof -
  have later: "acquire_times (Suc k) m' =
      (replicate (Suc k) (created m'),
       m'\<lparr>created := Suc (created m'), generatorPromise := Some (created m')\<rparr>)"
    if "generatorPromise m' = None" for k m'
  proof -
    have "acquire_times k (m'\<lparr>created := Suc (created m'), generatorPromise := Some (created m')\<rparr>)
          = (replicate k (created m'),
             m'\<lparr>created := Suc (created m'), generatorPromise := Some (created m')\<rparr>)"
      by (rule acquire_times_cached) simp
    then show ?thesis
      by (simp add: getIconGenerator_first [OF that])
  qed
  have a: "fst (acquire_times n m) = replicate n (fst (getIconGenerator m))
           \<and> created (snd (acquire_times n m)) \<le> Suc (created m)"
  proof (cases "generatorPromise m")
    case None
    show ?thesis
    proof (cases n)
      case 0
      then show ?thesis by simp
    next
      case (Suc k)
      show ?thesis
        unfolding Suc later [OF None] by (simp add: getIconGenerator_first [OF None])
    qed
  next
    case (Some pr)
    then show ?thesis
      by (simp add: acquire_times_cached [OF Some] getIconGenerator_cached [OF Some])
  qed
  have b: "acquire_times (Suc n) module_start =
       (replicate (Suc n) 0, \<lparr>generatorPromise = Some 0, created = Suc 0\<rparr>)"
    unfolding later [of module_start n, OF module_start_def [THEN arg_cong, of generatorPromise, simplified]]
    by (simp add: module_start_def)
  from a b show ?thesis by blast
qed

theorem getIconGenerator_single_flight_witness:
  "acquire_times 3 module_start = ([0, 0, 0], \<lparr>generatorPromise = Some 0, created = Suc 0\<rparr>)"
  using getIconGenerator_single_flight [of 2] by (simp add: numeral_3_eq_3 del: acquire_times.simps)

section \<open>The transform envelope\<close>




section \<open>Dispatch by category id\<close>

text \<open>
  C7. For a category id that is not an integer, is negative or is not below the number
  of registered categories, \<open>createIconForCategory\<close> (and so \<open>generateIcon\<close>)
  raises \<open>Unknown category\<close> and changes nothing. For the integer id \<open>i\<close> of a
  registered category it runs the drawer registered under the key of category \<open>i\<close>,
  inside the transform envelope on a fresh canvas, and returns the icon (or fails when
  the canvas element cannot be reached).
\<close>

theorem createIconForCategory_dispatch:
  "(\<not> isInteger c \<or> c < 0 \<or> real (length SYMBOL_CATEGORIES) \<le> c
      \<longrightarrow> createIconForCategory c sz s = (Inl (UnknownCategory c), s)
          \<and> generateIcon c z s = (Inl (UnknownCategory c), s))
   \<and> (i < length SYMBOL_CATEGORIES
      \<longrightarrow> map_of DRAWERS_BY_KEY (key (SYMBOL_CATEGORIES ! i)) = Some (DRAWERS ! i)
          \<and> cid (SYMBOL_CATEGORIES ! i) = i
          \<and> createIconForCategory (real i) sz s =
              (let canvasSize = max 8 (of_int \<lfloor>sz\<rfloor>);
                   entered =
                     s\<lparr>currentScale := rnd s 1 0.5 1,
                       g := [CreateGraphics canvasSize canvasSize, PixelDensity 1,
                             Background 255, Stroke 0, Fill 0, StrokeCapSquare,
                             StrokeJoinMiter, ImageSmoothingOff,
                             Push,
                             Translate (canvasSize / 2) (canvasSize / 2),
                             Rotate (radians (rnd s 0 (- 20) 20)),
                             Scale (rnd s 1 0.5 1),
                             Translate (canvasSize * rnd s 2 (- 0.05) 0.05)
                                       (canvasSize * rnd s 3 (- 0.05) 0.05)],
                       draws := draws s + 4\<rparr>;
                   left = (DRAWERS ! i) canvasSize entered;
                   final = left\<lparr>g := g left @ [Pop], currentScale := 1\<rparr>
               in if canvas_ok s
                  then (Inr \<lparr>width = canvasSize, height = canvasSize, rendering = g final\<rparr>,
                        final\<lparr>g := g final @ [Remove]\<rparr>)
                  else (Inl CanvasUnavailable, final)))"
proof (intro conjI impI)
  assume "\<not> isInteger c \<or> c < 0 \<or> real (length SYMBOL_CATEGORIES) \<le> c"
  then show "createIconForCategory c sz s = (Inl (UnknownCategory c), s)"
    and "generateIcon c z s = (Inl (UnknownCategory c), s)"
    by (auto simp: createIconForCategory_def generateIcon_def)
next
  assume i: "i < length SYMBOL_CATEGORIES"
  then show "map_of DRAWERS_BY_KEY (key (SYMBOL_CATEGORIES ! i)) = Some (DRAWERS ! i)"
    by (rule registry_lookup_nth)
  from i have "map cid SYMBOL_CATEGORIES ! i = [0..<length SYMBOL_CATEGORIES] ! i"
    by (simp only: registry_ids)
  with i show "cid (SYMBOL_CATEGORIES ! i) = i" by simp
  have "length DRAWERS = 10"
    by (simp add: DRAWERS_table)
  with i have "i < length DRAWERS"
    by (simp add: length_SYMBOL_CATEGORIES)
  then have mem: "DRAWERS ! i \<in> set DRAWERS"
    by (rule nth_mem)
  have ok: "canvas_ok ((DRAWERS ! i) z t) = canvas_ok t" for z t
    by (rule drawer_keeps [OF mem])
  from i show "createIconForCategory (real i) sz s =
              (let canvasSize = max 8 (of_int \<lfloor>sz\<rfloor>);
                   entered =
                     s\<lparr>currentScale := rnd s 1 0.5 1,
                       g := [CreateGraphics canvasSize canvasSize, PixelDensity 1,
                             Background 255, Stroke 0, Fill 0, StrokeCapSquare,
                             StrokeJoinMiter, ImageSmoothingOff,
                             Push,
                             Translate (canvasSize / 2) (canvasSize / 2),
                             Rotate (radians (rnd s 0 (- 20) 20)),
                             Scale (rnd s 1 0.5 1),
                             Translate (canvasSize * rnd s 2 (- 0.05) 0.05)
                                       (canvasSize * rnd s 3 (- 0.05) 0.05)],
                       draws := draws s + 4\<rparr>;
                   left = (DRAWERS ! i) canvasSize entered;
                   final = left\<lparr>g := g left @ [Pop], currentScale := 1\<rparr>
               in if canvas_ok s
                  then (Inr \<lparr>width = canvasSize, height = canvasSize, rendering = g final\<rparr>,
                        final\<lparr>g := g final @ [Remove]\<rparr>)
                  else (Inl CanvasUnavailable, final))"
    by (simp add: createIconForCategory_def isInteger_real applySymbolTransform_unfold Let_def
          ok emit_def rnd_def)
qed

theorem createIconForCategory_dispatch_witness:
  "createIconForCategory (5 / 2) 28 sample_sketch = (Inl (UnknownCategory (5 / 2)), sample_sketch)
   \<and> createIconForCategory (- 1) 28 sample_sketch = (Inl (UnknownCategory (- 1)), sample_sketch)
   \<and> createIconForCategory 10 28 sample_sketch = (Inl (UnknownCategory 10), sample_sketch)
   \<and> key (SYMBOL_CATEGORIES ! 4) = ''hospital''
   \<and> DRAWERS ! 4 = drawHospital
   \<and> fst (createIconForCategory 4 8 sample_sketch) =
       Inr \<lparr>width = 8, height = 8,
            rendering = g ((drawHospital 8
              (sample_sketch\<lparr>currentScale := 3 / 4,
                 g := [CreateGraphics 8 8, PixelDensity 1, Background 255, Stroke 0, Fill 0,
                       StrokeCapSquare, StrokeJoinMiter, ImageSmoothingOff,
                       Push, Translate 4 4, Rotate 0, Scale (3 / 4), Translate 0 0],
                 draws := 4\<rparr>))) @ [Pop]\<rparr>"
  using createIconForCategory_dispatch [where c = "5 / 2" and sz = 28 and s = sample_sketch and i = 4]
        createIconForCategory_dispatch [where c = "- 1" and sz = 28 and s = sample_sketch and i = 4]
        createIconForCategory_dispatch [where c = 10 and sz = 28 and s = sample_sketch and i = 4]
        createIconForCategory_dispatch [where c = 10 and sz = 8 and s = sample_sketch and i = 4]
  by (simp add: isInteger_def length_SYMBOL_CATEGORIES DRAWERS_table Let_def
         sample_sketch_def midpoint_source_def rnd_def radians_def)
     (simp add: SYMBOL_CATEGORIES_def)

section \<open>Stroke thickness\<close>

text \<open>
  C3 as stated fails. Rendering the city hall (id 0) at size 8 with every sample at
  \<open>1/2\<close>: the sampled scale is \<open>3/4\<close> and the drawer requests the factors \<open>0.065\<close>
  and \<open>0.05\<close>; the stroke weights applied are \<open>8 * 0.065 = 13/25\<close> and
  \<open>8 * 0.05 = 2/5\<close>, both below 1, where the law demands
  \<open>max(1, 8 * 0.065 / 0.75) = 1\<close> and \<open>max(1, 8 * 0.05 / 0.75) = 1\<close>.
\<close>

theorem stroke_compensation_counterexample:
  "fst (createIconForCategory 0 8 sample_sketch) =
      Inr \<lparr>width = 8, height = 8,
            rendering =
              [CreateGraphics 8 8, PixelDensity 1, Background 255, Stroke 0, Fill 0,
               StrokeCapSquare, StrokeJoinMiter, ImageSmoothingOff,
               Push, Translate 4 4, Rotate 0, Scale (3 / 4), Translate 0 0,
               Push, NoFill, StrokeWeight (13 / 25), Circle 0 0 6,
               StrokeWeight (2 / 5), Circle 0 0 (22 / 5), Pop,
               Pop]\<rparr>
   \<and> stroke (sample_sketch\<lparr>currentScale := 3 / 4\<rparr>) 8 (13 / 200) = 1
   \<and> stroke (sample_sketch\<lparr>currentScale := 3 / 4\<rparr>) 8 (1 / 20) = 1"
  by (simp add: createIconForCategory_def isInteger_def length_SYMBOL_CATEGORIES DRAWERS_table
        applySymbolTransform_def emit_def rnd_def sample_sketch_def midpoint_source_def
        drawCityHall_def radians_def Let_def stroke_def)

text \<open>
  C3, amended. The helper \<open>stroke(size, factor)\<close> returns
  \<open>max(1, size * factor / currentScale)\<close>, which is at least 1, and for a scale in
  \<open>(0, 1]\<close> and \<open>size * factor \<ge> 1\<close> the thickness after scaling is
  \<open>size * factor\<close> whatever the scale. No registered drawer calls it: what a drawer
  draws does not depend on the scale slot, and the city hall sets its two stroke weights
  to \<open>size * f\<close> with \<open>f\<close> sampled from \<open>[0.05, 0.08)\<close> and \<open>[0.04, 0.06)\<close>.
\<close>

theorem stroke_helper_unused:
  "stroke s sz f = max 1 (sz * f / currentScale s)
   \<and> 1 \<le> stroke s sz f
   \<and> (0 < currentScale s \<and> currentScale s \<le> 1 \<and> 1 \<le> sz * f
        \<longrightarrow> currentScale s * stroke s sz f = sz * f)
   \<and> (\<forall>d \<in> set DRAWERS. d sz (s\<lparr>currentScale := c\<rparr>) = (d sz s)\<lparr>currentScale := c\<rparr>)
   \<and> stroke_weights (g (drawCityHall sz (s\<lparr>g := []\<rparr>)))
       = [sz * rnd s 0 0.05 0.08, sz * rnd s 2 0.04 0.06]"
proof (intro conjI impI ballI)
  show "stroke s sz f = max 1 (sz * f / currentScale s)"
    by (simp add: stroke_def)
  show "1 \<le> stroke s sz f"
    by (simp add: stroke_def)
next
  assume a: "0 < currentScale s \<and> currentScale s \<le> 1 \<and> 1 \<le> sz * f"
  then have "sz * f \<le> sz * f / currentScale s"
    by (simp add: pos_le_divide_eq mult_left_le)
  with a have "stroke s sz f = sz * f / currentScale s"
    by (simp add: stroke_def max_def)
  with a show "currentScale s * stroke s sz f = sz * f"
    by simp
next
  fix d assume "d \<in> set DRAWERS"
  then show "d sz (s\<lparr>currentScale := c\<rparr>) = (d sz s)\<lparr>currentScale := c\<rparr>"
    by (rule drawer_ignores_scale)
next
  show "stroke_weights (g (drawCityHall sz (s\<lparr>g := []\<rparr>)))
       = [sz * rnd s 0 0.05 0.08, sz * rnd s 2 0.04 0.06]"
    by (simp add: drawCityHall_def emit_def rnd_def)
qed

theorem stroke_helper_unused_witness:
  "stroke (sample_sketch\<lparr>currentScale := 3 / 4\<rparr>) 28 (13 / 200) = 182 / 75
   \<and> 3 / 4 * stroke (sample_sketch\<lparr>currentScale := 3 / 4\<rparr>) 28 (13 / 200) = 28 * (13 / 200)
   \<and> drawCityHall 28 (sample_sketch\<lparr>currentScale := 3 / 4\<rparr>)
       = (drawCityHall 28 sample_sketch)\<lparr>currentScale := 3 / 4\<rparr>
   \<and> stroke_weights (g (drawCityHall 28 (sample_sketch\<lparr>currentScale := 3 / 4\<rparr>)))
       = [91 / 50, 7 / 5]"
proof -
  have mem: "drawCityHall \<in> set DRAWERS"
    by (simp add: DRAWERS_table)
  from stroke_helper_unused [where sz = 28 and f = "13 / 200"
         and s = "sample_sketch\<lparr>currentScale := 3 / 4\<rparr>" and c = "3 / 4"]
       stroke_helper_unused [where sz = 28 and f = "13 / 200"
         and s = sample_sketch and c = "3 / 4"] mem
  show ?thesis
    by (simp add: sample_sketch_def rnd_def midpoint_source_def)
qed

section \<open>Facts about the submit handler\<close>

text \<open>
  The definitions that a concrete run unfolds, and the outcome of the checks of the
  handler case by case.
\<close>

lemmas string_defs = parseInt10_def is_space_def is_digit_def digit_value_def
  String_of_def digit_char_def padStart_def decimal.simps

lemmas bound_defs = MAX_PER_CATEGORY_def MIN_PIXEL_SIZE_def MAX_PIXEL_SIZE_def

lemmas eval_defs =
  submit_def submit_checks_def generation_def small_request_def ready_page_def string_defs bound_defs Let_def
  appendProgress_def updateUiState_def SYMBOL_CATEGORIES_def icon_loop.simps
  yieldToBrowser_def cancel_click_def impatient_world_def first_yield_def never_def quiet_world_def nobody_def
  generateIcon_def createIconForCategory_def isInteger_def DRAWERS_table applySymbolTransform_def
  emit_def rnd_def sample_sketch_def midpoint_source_def drawer_defs radians_def
  folderName_def fileName_def slugify_def trim_def is_word_def toLowerCase_def
  refreshCategoryPreviews_def

lemma ready_inputs:
  "generator (ready_page\<lparr>countInput_value := a, pixelInput_value := b\<rparr>)"
  "selectedCategories (ready_page\<lparr>countInput_value := a, pixelInput_value := b\<rparr>)
     = {0, 1, 2, 3, 4, 5, 6, 7, 8, 9}"
  "countInput_value (ready_page\<lparr>countInput_value := a, pixelInput_value := b\<rparr>) = a"
  "pixelInput_value (ready_page\<lparr>countInput_value := a, pixelInput_value := b\<rparr>) = b"
  by (simp_all add: ready_page_def)










lemma submit_checks_job:
  assumes "fst (submit_checks s) = Some (cs, n, px)"
  shows "cs = filter (\<lambda>category. cid category \<in> selectedCategories s) SYMBOL_CATEGORIES"
    and "page.zip (snd (submit_checks s)) = []"
    and "\<not> cancelRequested (snd (submit_checks s))"
    and "engine (snd (submit_checks s)) = engine s"
    and "1 \<le> n \<and> n \<le> 6000" and "8 \<le> px \<and> px \<le> 512"
  using assms
  by (auto simp: submit_checks_def Let_def appendProgress_def updateUiState_def bound_defs
        split: option.splits if_splits)

lemma submit_checks_ignores_isGenerating:
  "fst (submit_checks (s\<lparr>isGenerating := b\<rparr>)) = fst (submit_checks s)"
  by (simp add: submit_checks_def Let_def split: option.split)

lemma submit_checks_started:
  assumes "fst (submit_checks s) = Some job"
  shows "isGenerating (snd (submit_checks s)) \<and> \<not> cancelRequested (snd (submit_checks s))
         \<and> generateButton_disabled (snd (submit_checks s))
         \<and> progress (snd (submit_checks s))
              = [Started (length (fst job)) (fst (snd job)) (snd (snd job))]"
  using assms
  by (auto simp: submit_checks_def Let_def appendProgress_def updateUiState_def
        split: option.splits if_splits)

section \<open>Clamping and rejecting the inputs\<close>

text \<open>
  C1 as stated fails. A count of \<open>0\<close> is not raised to 1 and a size of \<open>4\<close> is not
  raised to 8: the handler reports the input as wrong and returns, with no effective
  count or size at all.
\<close>

theorem clamp_law_counterexample:
  "submit_checks (ready_page\<lparr>countInput_value := ''0''\<rparr>)
     = (None, ready_page\<lparr>countInput_value := ''0'', progress := [BadCount]\<rparr>)
   \<and> submit_checks (ready_page\<lparr>pixelInput_value := ''4''\<rparr>)
     = (None, ready_page\<lparr>pixelInput_value := ''4'', progress := [BadPixel 8 512]\<rparr>)"
  by (simp add: submit_checks_def ready_page_def string_defs bound_defs Let_def appendProgress_def)

text \<open>
  C1, amended. With the generator initialised and a category selected, a count
  \<open>n \<ge> 1\<close> and a size \<open>px \<ge> 8\<close> are accepted with the effective count
  \<open>min(6000, n)\<close> and the effective size \<open>min(512, px)\<close> (so 10000 gives 6000 and
  9999 gives 512); a count \<open>n \<le> 0\<close> is rejected with the count message, and a
  size below 8 with the size message: inputs above the range are clamped, inputs below
  it are rejected.
\<close>

theorem submit_checks_clamp:
  assumes "generator s"
    and "parseInt10 (countInput_value s) = Some n"
    and "parseInt10 (pixelInput_value s) = Some px"
    and "selectedCategories s \<noteq> {}"
  shows "(n \<le> 0 \<longrightarrow> submit_checks s = (None, appendProgress BadCount False s))
       \<and> (1 \<le> n \<and> px < 8 \<longrightarrow> fst (submit_checks s) = None
             \<and> last (progress (snd (submit_checks s))) = BadPixel 8 512)
       \<and> (1 \<le> n \<and> 8 \<le> px \<longrightarrow>
             fst (submit_checks s) =
               Some (filter (\<lambda>category. cid category \<in> selectedCategories s) SYMBOL_CATEGORIES,
                     min 6000 n, min 512 px))"
  using assms
  by (auto simp: submit_checks_def bound_defs Let_def appendProgress_def)

theorem submit_checks_clamp_witness:
  "fst (submit_checks (ready_page\<lparr>countInput_value := ''10000'', pixelInput_value := ''9999''\<rparr>))
     = Some (SYMBOL_CATEGORIES, 6000, 512)
   \<and> submit_checks (ready_page\<lparr>countInput_value := ''0'', pixelInput_value := ''28''\<rparr>)
     = (None, appendProgress BadCount False
                (ready_page\<lparr>countInput_value := ''0'', pixelInput_value := ''28''\<rparr>))
   \<and> fst (submit_checks (ready_page\<lparr>countInput_value := ''100'', pixelInput_value := ''4''\<rparr>))
     = None
   \<and> last (progress (snd (submit_checks
         (ready_page\<lparr>countInput_value := ''100'', pixelInput_value := ''4''\<rparr>))))
     = BadPixel 8 512"
proof -
  have sel: "selectedCategories (ready_page\<lparr>countInput_value := a, pixelInput_value := b\<rparr>) \<noteq> {}"
    for a b
    by (simp add: ready_inputs)
  have p1: "parseInt10 ''10000'' = Some 10000" and p2: "parseInt10 ''9999'' = Some 9999"
    and p3: "parseInt10 ''0'' = Some 0" and p4: "parseInt10 ''28'' = Some 28"
    and p5: "parseInt10 ''100'' = Some 100" and p6: "parseInt10 ''4'' = Some 4"
    by (simp_all add: string_defs)
  show ?thesis
    using submit_checks_clamp [of "ready_page\<lparr>countInput_value := ''10000'', pixelInput_value := ''9999''\<rparr>" 10000 9999]
          submit_checks_clamp [of "ready_page\<lparr>countInput_value := ''0'', pixelInput_value := ''28''\<rparr>" 0 28]
          submit_checks_clamp [of "ready_page\<lparr>countInput_value := ''100'', pixelInput_value := ''4''\<rparr>" 100 4]
    by (simp add: ready_inputs p1 p2 p3 p4 p5 p6) (simp add: SYMBOL_CATEGORIES_def)
qed



section \<open>A submission during a run\<close>

text \<open>
  C4 as stated fails. On a page whose run is in progress and whose user has asked to
  cancel, a submit event is not rejected: the handler accepts it, clears the progress log
  of the first run for its own start message and clears the cancellation request.
\<close>

theorem busy_rejection_counterexample:
  "fst (submit_checks busy_page) = Some (SYMBOL_CATEGORIES, 100, 28)
   \<and> progress (snd (submit_checks busy_page)) = [Started 10 100 28]
   \<and> cancelRequested busy_page
   \<and> \<not> cancelRequested (snd (submit_checks busy_page))"
  by (simp add: submit_checks_def busy_page_def ready_page_def string_defs bound_defs Let_def
        appendProgress_def updateUiState_def)
     (simp add: SYMBOL_CATEGORIES_def)

text \<open>
  C4, amended. While a run is in progress \<open>updateUiState\<close> disables the generate
  button, both number inputs, the category checkboxes and the refresh button, and leaves
  only the cancel button enabled; the handler sets this up as soon as it has accepted a
  submission. That is the only protection: the handler never reads \<open>isGenerating\<close>
  and has no busy message, so a submit event that arrives during a run is checked and
  accepted exactly as on an idle page, and then clears \<open>cancelRequested\<close> and replaces
  the progress log by its start message.
\<close>

theorem busy_handling:
  "(isGenerating s \<longrightarrow>
      generateButton_disabled (updateUiState s) \<and> countInput_disabled (updateUiState s)
      \<and> pixelInput_disabled (updateUiState s) \<and> checkboxes_disabled (updateUiState s)
      \<and> refreshButton_disabled (updateUiState s) \<and> \<not> cancelButton_disabled (updateUiState s))
   \<and> (fst (submit_checks s) = Some job \<longrightarrow>
        isGenerating (snd (submit_checks s)) \<and> generateButton_disabled (snd (submit_checks s)))
   \<and> fst (submit_checks (s\<lparr>isGenerating := True\<rparr>)) = fst (submit_checks s)
   \<and> (fst (submit_checks (s\<lparr>isGenerating := True\<rparr>)) = Some job \<longrightarrow>
        \<not> cancelRequested (snd (submit_checks (s\<lparr>isGenerating := True\<rparr>)))
        \<and> progress (snd (submit_checks (s\<lparr>isGenerating := True\<rparr>)))
            = [Started (length (fst job)) (fst (snd job)) (snd (snd job))])"
  using submit_checks_started [of s job] submit_checks_started [of "s\<lparr>isGenerating := True\<rparr>" job]
  by (simp add: submit_checks_ignores_isGenerating updateUiState_def)

theorem busy_handling_witness:
  "isGenerating busy_page
   \<and> generateButton_disabled (updateUiState busy_page)
   \<and> \<not> cancelButton_disabled (updateUiState busy_page)
   \<and> fst (submit_checks (ready_page\<lparr>isGenerating := True\<rparr>)) = fst (submit_checks ready_page)
   \<and> fst (submit_checks ready_page) = Some (SYMBOL_CATEGORIES, 100, 28)
   \<and> progress (snd (submit_checks (ready_page\<lparr>isGenerating := True\<rparr>))) = [Started 10 100 28]"
proof -
  have job: "fst (submit_checks ready_page) = Some (SYMBOL_CATEGORIES, 100, 28)"
    by (simp add: submit_checks_def ready_page_def string_defs bound_defs Let_def)
       (simp add: SYMBOL_CATEGORIES_def)
  have busy: "isGenerating busy_page"
    by (simp add: busy_page_def)
  from busy_handling [of busy_page "(SYMBOL_CATEGORIES, 100, 28)"]
       busy_handling [of ready_page "(SYMBOL_CATEGORIES, 100, 28)"] job busy
  show ?thesis
    by (simp add: length_SYMBOL_CATEGORIES)
qed

section \<open>The canvas size\<close>

text \<open>
  C10. \<open>generateIcon\<close> passes its size (28 when none is given) on to
  \<open>createIconForCategory\<close> unchanged. For a registered category and an available
  canvas, both return an icon whose canvas is a square of side \<open>max(8, floor(size))\<close>:
  sizes below 8 give 8, other sizes are floored, and nothing bounds the side from above
  (a size of at least 513 gives a side above 512). The bound of 512 belongs to the form:
  a size that the submit handler passes on lies between 8 and 512.
\<close>

theorem canvas_size_one_sided:
  "generateIcon c (Some sz) s = createIconForCategory c sz s
   \<and> generateIcon c None s = createIconForCategory c DEFAULT_CANVAS_SIZE s
   \<and> (i < length SYMBOL_CATEGORIES \<and> canvas_ok s \<longrightarrow>
      (\<exists>ic s'. generateIcon (real i) (Some sz) s = (Inr ic, s')
         \<and> width ic = max 8 (of_int \<lfloor>sz\<rfloor>)
         \<and> height ic = max 8 (of_int \<lfloor>sz\<rfloor>)
         \<and> (513 \<le> sz \<longrightarrow> 512 < width ic)))
   \<and> (i < length SYMBOL_CATEGORIES \<and> canvas_ok s \<longrightarrow>
      (\<exists>ic s'. createIconForCategory (real i) sz s = (Inr ic, s')
         \<and> width ic = max 8 (of_int \<lfloor>sz\<rfloor>)
         \<and> height ic = max 8 (of_int \<lfloor>sz\<rfloor>)
         \<and> hd (rendering ic) = CreateGraphics (max 8 (of_int \<lfloor>sz\<rfloor>)) (max 8 (of_int \<lfloor>sz\<rfloor>))
         \<and> (sz < 8 \<longrightarrow> width ic = 8)
         \<and> (8 \<le> sz \<longrightarrow> width ic = of_int \<lfloor>sz\<rfloor>)
         \<and> (513 \<le> sz \<longrightarrow> 512 < width ic)))
   \<and> (fst (submit_checks req) = Some (cs, n, px) \<longrightarrow> 8 \<le> px \<and> px \<le> 512)"
proof (intro conjI impI)
  show "generateIcon c (Some sz) s = createIconForCategory c sz s"
    and "generateIcon c None s = createIconForCategory c DEFAULT_CANVAS_SIZE s"
    by (simp_all add: generateIcon_def)
next
  assume a: "i < length SYMBOL_CATEGORIES \<and> canvas_ok s"
  then obtain ic s' where r: "createIconForCategory (real i) sz s = (Inr ic, s')"
    and w: "width ic = max 8 (of_int \<lfloor>sz\<rfloor>)" "height ic = max 8 (of_int \<lfloor>sz\<rfloor>)"
    using createIconForCategory_canvas [of i s sz] by blast
  have huge: "513 \<le> sz \<Longrightarrow> 512 < max 8 (real_of_int \<lfloor>sz\<rfloor>)"
  proof -
    assume "513 \<le> sz"
    then have "513 \<le> \<lfloor>sz\<rfloor>" by (simp add: le_floor_iff)
    then have "513 \<le> real_of_int \<lfloor>sz\<rfloor>" by linarith
    then show ?thesis by (simp add: max_def)
  qed
  from r w huge
  show "\<exists>ic s'. generateIcon (real i) (Some sz) s = (Inr ic, s')
         \<and> width ic = max 8 (of_int \<lfloor>sz\<rfloor>)
         \<and> height ic = max 8 (of_int \<lfloor>sz\<rfloor>)
         \<and> (513 \<le> sz \<longrightarrow> 512 < width ic)"
    by (auto simp: generateIcon_def)
next
  assume a: "i < length SYMBOL_CATEGORIES \<and> canvas_ok s"
  then obtain ic s' where r: "createIconForCategory (real i) sz s = (Inr ic, s')"
    and w: "width ic = max 8 (of_int \<lfloor>sz\<rfloor>)" "height ic = max 8 (of_int \<lfloor>sz\<rfloor>)"
      "hd (rendering ic) = CreateGraphics (max 8 (of_int \<lfloor>sz\<rfloor>)) (max 8 (of_int \<lfloor>sz\<rfloor>))"
    using createIconForCategory_canvas [of i s sz] by blast
  have small: "sz < 8 \<Longrightarrow> max 8 (real_of_int \<lfloor>sz\<rfloor>) = 8"
    by (simp add: max_def)
  have large: "8 \<le> sz \<Longrightarrow> max 8 (real_of_int \<lfloor>sz\<rfloor>) = of_int \<lfloor>sz\<rfloor>"
    by (simp add: max_def le_floor_iff)
  have huge: "513 \<le> sz \<Longrightarrow> 512 < max 8 (real_of_int \<lfloor>sz\<rfloor>)"
  proof -
    assume "513 \<le> sz"
    then have "513 \<le> \<lfloor>sz\<rfloor>" by (simp add: le_floor_iff)
    then have "513 \<le> real_of_int \<lfloor>sz\<rfloor>" by linarith
    then show ?thesis by (simp add: max_def)
  qed
  from r w small large huge
  show "\<exists>ic s'. createIconForCategory (real i) sz s = (Inr ic, s')
         \<and> width ic = max 8 (of_int \<lfloor>sz\<rfloor>)
         \<and> height ic = max 8 (of_int \<lfloor>sz\<rfloor>)
         \<and> hd (rendering ic) = CreateGraphics (max 8 (of_int \<lfloor>sz\<rfloor>)) (max 8 (of_int \<lfloor>sz\<rfloor>))
         \<and> (sz < 8 \<longrightarrow> width ic = 8)
         \<and> (8 \<le> sz \<longrightarrow> width ic = of_int \<lfloor>sz\<rfloor>)
         \<and> (513 \<le> sz \<longrightarrow> 512 < width ic)"
    by auto
next
  assume "fst (submit_checks req) = Some (cs, n, px)"
  from submit_checks_job(6) [OF this] show "8 \<le> px" and "px \<le> 512"
    by simp_all
qed

theorem canvas_size_one_sided_witness:
  "width (projr (fst (generateIcon 0 (Some 100000) sample_sketch))) = 100000
   \<and> height (projr (fst (generateIcon 0 (Some 100000) sample_sketch))) = 100000
   \<and> width (projr (fst (createIconForCategory 0 (19999 / 2) sample_sketch))) = 9999
   \<and> width (projr (fst (createIconForCategory 0 3 sample_sketch))) = 8
   \<and> width (projr (fst (createIconForCategory 0 (57 / 2) sample_sketch))) = 28
   \<and> snd (snd (the (fst (submit_checks (ready_page\<lparr>pixelInput_value := ''9999''\<rparr>))))) = 512"
proof -
  let ?req = "ready_page\<lparr>pixelInput_value := ''9999''\<rparr>"
  have job: "fst (submit_checks ?req) = Some (SYMBOL_CATEGORIES, 100, 512)"
    by (simp add: submit_checks_def ready_page_def string_defs bound_defs Let_def)
       (simp add: SYMBOL_CATEGORIES_def)
  have ok: "0 < length SYMBOL_CATEGORIES \<and> canvas_ok sample_sketch"
    by (simp add: length_SYMBOL_CATEGORIES sample_sketch_def)
  have fl: "\<lfloor>19999 / 2 :: real\<rfloor> = 9999" "\<lfloor>57 / 2 :: real\<rfloor> = 28"
    by simp_all
  note t = canvas_size_one_sided [where i = 0 and s = sample_sketch and c = 0
      and req = ?req and cs = SYMBOL_CATEGORIES and n = 100 and px = 512]
  from t [where sz = 100000] ok
  obtain ic s' where "generateIcon 0 (Some 100000) sample_sketch = (Inr ic, s')"
    "width ic = max 8 (of_int \<lfloor>100000 :: real\<rfloor>)" "height ic = max 8 (of_int \<lfloor>100000 :: real\<rfloor>)"
    by auto
  then have a: "width (projr (fst (generateIcon 0 (Some 100000) sample_sketch))) = 100000"
    "height (projr (fst (generateIcon 0 (Some 100000) sample_sketch))) = 100000"
    by simp_all
  have size: "width (projr (fst (createIconForCategory 0 z sample_sketch)))
                = max 8 (of_int \<lfloor>z\<rfloor>)" for z
  proof -
    from t [where sz = z] ok
    obtain ic s' where "createIconForCategory 0 z sample_sketch = (Inr ic, s')"
      "width ic = max 8 (of_int \<lfloor>z\<rfloor>)"
      by auto
    then show ?thesis by simp
  qed
  from t [where sz = 3] job have px: "(512 :: int) \<le> 512" by simp
  from a size [of "19999 / 2"] size [of 3] size [of "57 / 2"] job
  show ?thesis
    by (simp add: fl)
qed

section \<open>The generation loops\<close>

text \<open>
  Once the cancellation flag is set both loops return at once. The loops never touch
  the saved downloads and never finalise the archive. When nobody clicks, JSZip creates
  every folder and the canvas is available, the loops run to their end and the archive
  holds, for each category in turn, its folder and then its files.
\<close>

lemma icon_loop_cancelled:
  "cancelRequested s \<Longrightarrow> icon_loop E c f n px i s = (None, s)"
  by (subst icon_loop.simps) simp

lemma category_loop_cancelled:
  "cancelRequested s \<Longrightarrow> category_loop E len n px idx cs s = (None, s)"
  by (cases cs) simp_all

lemma yieldToBrowser_frame:
  "saved (yieldToBrowser E s) = saved s"
  "page.zip (yieldToBrowser E s) = page.zip s"
  "engine (yieldToBrowser E s) = engine s"
  "isGenerating (yieldToBrowser E s) = isGenerating s"
  "console (yieldToBrowser E s) = console s"
  by (simp_all add: yieldToBrowser_def cancel_click_def appendProgress_def Let_def)

lemma icon_loop_saved:
  "saved (snd (icon_loop E c f n px i s)) = saved s
   \<and> (GenerateAsync \<in> set (page.zip (snd (icon_loop E c f n px i s)))
        \<longleftrightarrow> GenerateAsync \<in> set (page.zip s))"
proof (induction E c f n px i s rule: icon_loop.induct)
  case (1 E category folder perCategory pixelSize iconIndex s)
  show ?case
  proof (cases "iconIndex < perCategory \<and> \<not> cancelRequested s")
    case False
    then show ?thesis
      by (subst (1 2) icon_loop.simps) auto
  next
    case True
    obtain x p where gen: "generateIcon (real (cid category)) (Some (real_of_int pixelSize)) (engine s) = (x, p)"
      by (cases "generateIcon (real (cid category)) (Some (real_of_int pixelSize)) (engine s)")
    show ?thesis
    proof (cases x)
      case (Inl e)
      with True gen show ?thesis
        by (subst (1 2) icon_loop.simps) simp
    next
      case (Inr dataUrl)
      from True have a: "iconIndex < perCategory" and b: "\<not> cancelRequested s" by simp_all
      note ih = "1.IH" [OF a b gen [symmetric] Inr refl refl]
      from True gen Inr ih show ?thesis
        by (subst (1 2) icon_loop.simps)
           (simp add: Let_def yieldToBrowser_frame appendProgress_def)
    qed
  qed
qed

lemma category_loop_saved:
  "saved (snd (category_loop E len n px idx cs s)) = saved s
   \<and> (GenerateAsync \<in> set (page.zip (snd (category_loop E len n px idx cs s)))
        \<longleftrightarrow> GenerateAsync \<in> set (page.zip s))"
proof (induction cs arbitrary: idx s)
  case Nil
  then show ?case by simp
next
  case (Cons c cs)
  let ?s1 = "appendProgress (CategoryStarted (label c) (idx + 1) len) False s"
  let ?name = "folderName idx (key c)"
  obtain r s2 where il: "icon_loop E c ?name n px 0 (?s1\<lparr>zip := page.zip ?s1 @ [Folder ?name]\<rparr>) = (r, s2)"
    by (cases "icon_loop E c ?name n px 0 (?s1\<lparr>zip := page.zip ?s1 @ [Folder ?name]\<rparr>)")
  from icon_loop_saved [of E c ?name n px 0 "?s1\<lparr>zip := page.zip ?s1 @ [Folder ?name]\<rparr>"] il
  have s2: "saved s2 = saved s"
     "GenerateAsync \<in> set (page.zip s2) \<longleftrightarrow> GenerateAsync \<in> set (page.zip s)"
    by (simp_all add: appendProgress_def)
  show ?case
    using il s2 Cons.IH [of "idx + 1" s2]
    by (cases r) (simp_all add: Let_def appendProgress_def)
qed

lemma yieldToBrowser_quiet:
  assumes "\<forall>k. \<not> cancel_clicked E k"
  shows "yieldToBrowser E s = s\<lparr>yields := Suc (yields s)\<rparr>"
  using assms by (simp add: yieldToBrowser_def)

lemma archive_paths_append:
  "archive_paths (xs @ ys) = archive_paths xs @ archive_paths ys"
  by (induction xs rule: archive_paths.induct) simp_all

lemma icon_loop_quiet:
  "\<forall>k. \<not> cancel_clicked E k \<Longrightarrow> cid c < length SYMBOL_CATEGORIES \<Longrightarrow>
   \<not> cancelRequested s \<Longrightarrow> canvas_ok (engine s) \<Longrightarrow>
   \<exists>s'. icon_loop E c f n px i s = (None, s') \<and> \<not> cancelRequested s'
        \<and> canvas_ok (engine s')
        \<and> archive_paths (page.zip s')
             = archive_paths (page.zip s) @ map (\<lambda>j. f @ ''/'' @ fileName j) [i..n - 1]"
proof (induction E c f n px i s rule: icon_loop.induct)
  case (1 E category folder perCategory pixelSize iconIndex s)
  note quiet = "1.prems"(1) and valid = "1.prems"(2) and nc = "1.prems"(3) and ok = "1.prems"(4)
  show ?case
  proof (cases "iconIndex < perCategory")
    case False
    with nc ok show ?thesis
      by (subst icon_loop.simps) simp
  next
    case True
    from generateIcon_ok [OF valid ok]
    obtain ic p where gen: "generateIcon (real (cid category)) (Some (real_of_int pixelSize)) (engine s) = (Inr ic, p)"
      and p: "canvas_ok p" by blast
    define s1 where "s1 = s\<lparr>engine := p, zip := page.zip s @ [File folder (fileName iconIndex) ic]\<rparr>"
    define s2 where "s2 = (if (iconIndex + 1) mod 200 = 0 \<or> iconIndex + 1 = perCategory
                           then yieldToBrowser E
                                  (appendProgress
                                     (CategoryProgress (label category) (iconIndex + 1) perCategory)
                                     False s1)
                           else s1)"
    have s2: "\<not> cancelRequested s2" "canvas_ok (engine s2)" "page.zip s2 = page.zip s1"
      using nc p by (simp_all add: s2_def s1_def yieldToBrowser_quiet [OF quiet] appendProgress_def)
    from "1.IH" [OF True nc gen [symmetric] refl s1_def s2_def quiet valid s2(1,2)]
    obtain s' where rec: "icon_loop E category folder perCategory pixelSize (iconIndex + 1) s2 = (None, s')"
      and s': "\<not> cancelRequested s'" "canvas_ok (engine s')"
        "archive_paths (page.zip s')
             = archive_paths (page.zip s2) @ map (\<lambda>j. folder @ ''/'' @ fileName j) [iconIndex + 1..perCategory - 1]"
      by blast
    have "icon_loop E category folder perCategory pixelSize iconIndex s
            = icon_loop E category folder perCategory pixelSize (iconIndex + 1) s2"
      unfolding s2_def s1_def using True nc gen
      by (subst icon_loop.simps) (simp add: Let_def)
    with rec have step: "icon_loop E category folder perCategory pixelSize iconIndex s = (None, s')"
      by simp
    have range: "[iconIndex..perCategory - 1] = iconIndex # [iconIndex + 1..perCategory - 1]"
      using True by (simp add: upto_rec1)
    show ?thesis
      using step s' by (simp add: s2 s1_def range archive_paths_append)
  qed
qed

lemma category_loop_quiet:
  "\<forall>k. \<not> cancel_clicked E k \<Longrightarrow> \<forall>name. \<not> folder_null E name \<Longrightarrow>
   \<forall>c \<in> set cs. cid c < length SYMBOL_CATEGORIES \<Longrightarrow>
   \<not> cancelRequested s \<Longrightarrow> canvas_ok (engine s) \<Longrightarrow>
   \<exists>s'. category_loop E len n px idx cs s = (None, s') \<and> \<not> cancelRequested s'
        \<and> canvas_ok (engine s')
        \<and> archive_paths (page.zip s')
             = archive_paths (page.zip s)
               @ concat (map (\<lambda>(k, c). (folderName k (key c) @ ''/'')
                                      # map (\<lambda>j. folderName k (key c) @ ''/'' @ fileName j) [0..n - 1])
                           (enumerate idx cs))"
proof (induction cs arbitrary: idx s)
  case Nil
  then show ?case by simp
next
  case (Cons c cs)
  let ?name = "folderName idx (key c)"
  define s1 where "s1 = (appendProgress (CategoryStarted (label c) (idx + 1) len) False s)
                          \<lparr>zip := page.zip s @ [Folder ?name]\<rparr>"
  have s1: "\<not> cancelRequested s1" "canvas_ok (engine s1)"
    using Cons.prems by (simp_all add: s1_def appendProgress_def)
  from Cons.prems(3) have valid: "cid c < length SYMBOL_CATEGORIES"
    and rest: "\<forall>c \<in> set cs. cid c < length SYMBOL_CATEGORIES" by simp_all
  from icon_loop_quiet [OF Cons.prems(1) valid s1, of ?name n px 0]
  obtain s2 where il: "icon_loop E c ?name n px 0 s1 = (None, s2)"
    and s2: "\<not> cancelRequested s2" "canvas_ok (engine s2)"
      "archive_paths (page.zip s2)
         = archive_paths (page.zip s1) @ map (\<lambda>j. ?name @ ''/'' @ fileName j) [0..n - 1]"
    by blast
  from Cons.IH [OF Cons.prems(1,2) rest s2(1,2), of "idx + 1"]
  obtain s' where cl: "category_loop E len n px (idx + 1) cs s2 = (None, s')"
    and s': "\<not> cancelRequested s'" "canvas_ok (engine s')"
      "archive_paths (page.zip s')
             = archive_paths (page.zip s2)
               @ concat (map (\<lambda>(k, c). (folderName k (key c) @ ''/'')
                                      # map (\<lambda>j. folderName k (key c) @ ''/'' @ fileName j) [0..n - 1])
                           (enumerate (idx + 1) cs))"
    by blast
  have "category_loop E len n px idx (c # cs) s = (None, s')"
    using Cons.prems(2,4) il cl
    by (simp add: Let_def s1_def appendProgress_def)
  then show ?case
    using s' s2(3) by (simp add: s1_def appendProgress_def archive_paths_append)
qed

section \<open>Cancellation\<close>

text \<open>
  C2. Both loops test the cancellation flag at the head of each iteration and, when it
  is set, return at once without generating anything further; a click on the cancel
  button during a yield of a run sets the flag. When the loops end with the flag set,
  the run reports the cancelled message as its last message (no error is logged), hands
  nothing to \<open>saveAs\<close>, does not finalise the archive, and ends with \<open>isGenerating\<close>
  and \<open>cancelRequested\<close> both false and the buttons back in their idle state.
\<close>

theorem cancelled_run:
  "(cancelRequested s \<longrightarrow> icon_loop E c f n px i s = (None, s))
   \<and> (cancelRequested s \<longrightarrow> category_loop E len n px idx cs s = (None, s))
   \<and> (\<not> cancelRequested s \<and> isGenerating s \<and> cancel_clicked E (yields s)
        \<longrightarrow> cancelRequested (yieldToBrowser E s))
   \<and> (category_loop E (length cs) n px 0 cs s = (None, s') \<and> cancelRequested s'
        \<longrightarrow> generation E cs n px s =
              updateUiState (s'\<lparr>progress := progress s' @ [Cancelled],
                                isGenerating := False, cancelRequested := False\<rparr>)
            \<and> saved (generation E cs n px s) = saved s
            \<and> (GenerateAsync \<in> set (page.zip (generation E cs n px s))
                 \<longleftrightarrow> GenerateAsync \<in> set (page.zip s))
            \<and> last (progress (generation E cs n px s)) = Cancelled
            \<and> console (generation E cs n px s) = console s'
            \<and> \<not> isGenerating (generation E cs n px s)
            \<and> \<not> cancelRequested (generation E cs n px s)
            \<and> \<not> generateButton_disabled (generation E cs n px s)
            \<and> cancelButton_disabled (generation E cs n px s))"
proof (intro conjI impI)
  assume "cancelRequested s"
  then show "icon_loop E c f n px i s = (None, s)"
    by (rule icon_loop_cancelled)
next
  assume "cancelRequested s"
  then show "category_loop E len n px idx cs s = (None, s)"
    by (rule category_loop_cancelled)
next
  assume "\<not> cancelRequested s \<and> isGenerating s \<and> cancel_clicked E (yields s)"
  then show "cancelRequested (yieldToBrowser E s)"
    by (simp add: yieldToBrowser_def cancel_click_def appendProgress_def)
next
  assume a: "category_loop E (length cs) n px 0 cs s = (None, s') \<and> cancelRequested s'"
  then show g: "generation E cs n px s =
              updateUiState (s'\<lparr>progress := progress s' @ [Cancelled],
                                isGenerating := False, cancelRequested := False\<rparr>)"
    by (simp add: generation_def appendProgress_def)
  from category_loop_saved [of E "length cs" n px 0 cs s] a
  have fr: "saved s' = saved s"
    "GenerateAsync \<in> set (page.zip s') \<longleftrightarrow> GenerateAsync \<in> set (page.zip s)"
    by simp_all
  show "saved (generation E cs n px s) = saved s"
    by (simp add: g updateUiState_def fr)
  show "GenerateAsync \<in> set (page.zip (generation E cs n px s))
                 \<longleftrightarrow> GenerateAsync \<in> set (page.zip s)"
    by (simp add: g updateUiState_def fr)
  show "last (progress (generation E cs n px s)) = Cancelled"
    by (simp add: g updateUiState_def)
  show "console (generation E cs n px s) = console s'"
    by (simp add: g updateUiState_def)
  show "\<not> isGenerating (generation E cs n px s)"
    by (simp add: g updateUiState_def)
  show "\<not> cancelRequested (generation E cs n px s)"
    by (simp add: g updateUiState_def)
  show "\<not> generateButton_disabled (generation E cs n px s)"
    by (simp add: g updateUiState_def)
  show "cancelButton_disabled (generation E cs n px s)"
    by (simp add: g updateUiState_def)
qed

theorem cancelled_run_witness:
  "saved (submit impatient_world small_request) = []
   \<and> archive_paths (page.zip (submit impatient_world small_request))
       = [''01_police-box/'', ''01_police-box/0001.png'', ''01_police-box/0002.png'']
   \<and> progress (submit impatient_world small_request)
       = [Started 3 2 28,
          CategoryStarted (label (SYMBOL_CATEGORIES ! 1)) 1 3,
          CategoryProgress (label (SYMBOL_CATEGORIES ! 1)) 2 2,
          CancelRequested,
          Cancelled]
   \<and> console (submit impatient_world small_request) = []
   \<and> \<not> isGenerating (submit impatient_world small_request)
   \<and> \<not> cancelRequested (submit impatient_world small_request)"
proof -
  let ?cs = "[SYMBOL_CATEGORIES ! 1, SYMBOL_CATEGORIES ! 3, SYMBOL_CATEGORIES ! 4]"
  let ?s = "snd (submit_checks small_request)"
  define s' where "s' = snd (category_loop impatient_world (length ?cs) 2 28 0 ?cs ?s)"
  have job: "fst (submit_checks small_request) = Some (?cs, 2, 28)"
    by (simp add: submit_checks_def small_request_def ready_page_def string_defs bound_defs Let_def
          SYMBOL_CATEGORIES_def)
  have sub: "submit impatient_world small_request = generation impatient_world ?cs 2 28 ?s"
    using job by (cases "submit_checks small_request") (simp add: submit_def)
  have start: "saved ?s = []" "console ?s = []"
    by (simp_all add: submit_checks_def small_request_def ready_page_def string_defs bound_defs Let_def
          appendProgress_def updateUiState_def)
  have loops: "category_loop impatient_world (length ?cs) 2 28 0 ?cs ?s = (None, s')
               \<and> cancelRequested s'"
    unfolding s'_def by (simp add: eval_defs)
  have after: "console s' = []"
    "archive_paths (page.zip s')
       = [''01_police-box/'', ''01_police-box/0001.png'', ''01_police-box/0002.png'']"
    "progress s' = [Started 3 2 28,
          CategoryStarted (label (SYMBOL_CATEGORIES ! 1)) 1 3,
          CategoryProgress (label (SYMBOL_CATEGORIES ! 1)) 2 2,
          CancelRequested]"
    unfolding s'_def by (simp_all add: eval_defs decimal.simps numeral_3_eq_3)
  note c = cancelled_run [where s = ?s and s' = s' and E = impatient_world and cs = ?cs
      and n = 2 and px = 28, THEN conjunct2, THEN conjunct2, THEN conjunct2, THEN mp, OF loops]
  from c have gen: "generation impatient_world ?cs 2 28 ?s =
      updateUiState (s'\<lparr>progress := progress s' @ [Cancelled],
                        isGenerating := False, cancelRequested := False\<rparr>)"
    and sv: "saved (generation impatient_world ?cs 2 28 ?s) = saved ?s"
    by blast+
  have "saved (submit impatient_world small_request) = []"
    unfolding sub by (simp only: sv start)
  moreover have "archive_paths (page.zip (submit impatient_world small_request))
       = [''01_police-box/'', ''01_police-box/0001.png'', ''01_police-box/0002.png'']"
    unfolding sub gen by (simp add: after updateUiState_def)
  moreover have "progress (submit impatient_world small_request)
       = [Started 3 2 28,
          CategoryStarted (label (SYMBOL_CATEGORIES ! 1)) 1 3,
          CategoryProgress (label (SYMBOL_CATEGORIES ! 1)) 2 2,
          CancelRequested,
          Cancelled]"
    unfolding sub gen by (simp add: after updateUiState_def)
  moreover have "console (submit impatient_world small_request) = []"
    unfolding sub gen by (simp add: after updateUiState_def)
  moreover have "\<not> isGenerating (submit impatient_world small_request)"
    "\<not> cancelRequested (submit impatient_world small_request)"
    unfolding sub gen by (simp_all add: updateUiState_def)
  ultimately show ?thesis by blast
qed

section \<open>Folder and file names\<close>

text \<open>Decimal numerals below \<open>100\<close> padded to two digits, below \<open>10000\<close> to four.\<close>

lemma decimal_digit: "n < 10 \<Longrightarrow> decimal n = [digit_char n]"
  by (subst decimal.simps) simp

lemma decimal_more: "10 \<le> n \<Longrightarrow> decimal n = decimal (n div 10) @ [digit_char (n mod 10)]"
  by (subst decimal.simps) simp

lemma digit_char_0: "digit_char 0 = CHR ''0''"
  by (simp add: digit_char_def)

lemma pad2_decimal:
  assumes "n < 100"
  shows "padStart 2 CHR ''0'' (decimal n) = [digit_char (n div 10), digit_char (n mod 10)]"
proof (cases "n < 10")
  case True
  then show ?thesis
    by (simp add: decimal_digit padStart_def digit_char_0)
next
  case False
  with assms have "n div 10 < 10" by simp
  with False show ?thesis
    by (simp add: decimal_more decimal_digit padStart_def)
qed

lemma decimal_3:
  assumes "n < 1000"
  shows "padStart 3 CHR ''0'' (decimal n)
           = [digit_char (n div 100), digit_char (n div 10 mod 10), digit_char (n mod 10)]"
proof (cases "n < 100")
  case True
  have "n div 100 = 0" using True by simp
  moreover have "n div 10 mod 10 = n div 10" using True by simp
  moreover have "padStart 3 CHR ''0'' (decimal n) = CHR ''0'' # padStart 2 CHR ''0'' (decimal n)"
  proof (cases "n < 10")
    case True
    then show ?thesis by (simp add: padStart_def decimal_digit numeral_3_eq_3)
  next
    case False
    with \<open>n < 100\<close> have "n div 10 < 10" by simp
    with False show ?thesis by (simp add: padStart_def decimal_more decimal_digit)
  qed
  ultimately show ?thesis
    by (simp add: pad2_decimal [OF True] digit_char_0)
next
  case False
  with assms have a: "10 \<le> n" "10 \<le> n div 10" "n div 10 div 10 < 10" by simp_all
  have "n div 10 div 10 = n div 100" by (simp add: div_mult2_eq [symmetric])
  with a show ?thesis
    by (simp add: decimal_more decimal_digit padStart_def)
qed

lemma pad4_decimal:
  assumes "n < 10000"
  shows "padStart 4 CHR ''0'' (decimal n)
           = [digit_char (n div 1000), digit_char (n div 100 mod 10),
              digit_char (n div 10 mod 10), digit_char (n mod 10)]"
proof (cases "n < 1000")
  case True
  have z: "n div 1000 = 0" using True by simp
  have m: "n div 100 mod 10 = n div 100" using True by simp
  have len: "length (decimal n) \<le> 3"
  proof -
    have "length (padStart 3 CHR ''0'' (decimal n)) = 3"
      by (simp add: decimal_3 [OF True])
    then show ?thesis by (simp add: padStart_def split: if_splits)
  qed
  then have "padStart 4 CHR ''0'' (decimal n) = CHR ''0'' # padStart 3 CHR ''0'' (decimal n)"
    by (simp add: padStart_def Suc_diff_le numeral_3_eq_3 flip: replicate_Suc)
  then show ?thesis
    by (simp add: decimal_3 [OF True] z m digit_char_0)
next
  case False
  with assms have a: "10 \<le> n" "10 \<le> n div 10" "10 \<le> n div 10 div 10" "n div 10 div 10 div 10 < 10"
    by simp_all
  have "n div 10 div 10 = n div 100" "n div 10 div 10 div 10 = n div 1000"
    by (simp_all add: div_mult2_eq [symmetric])
  with a show ?thesis
    by (simp add: decimal_more decimal_digit padStart_def)
qed

lemma folderName_digits:
  assumes "k < 99"
  shows "folderName k name
           = [digit_char (Suc k div 10), digit_char (Suc k mod 10)] @ ''_'' @ slugify name"
  using pad2_decimal [of "Suc k"] assms
  by (simp add: folderName_def String_of_def nat_add_distrib)

lemma fileName_digits:
  assumes "0 \<le> j" "j < 9999"
  shows "fileName j
           = [digit_char (nat (j + 1) div 1000), digit_char (nat (j + 1) div 100 mod 10),
              digit_char (nat (j + 1) div 10 mod 10), digit_char (nat (j + 1) mod 10)] @ ''.png''"
  using pad4_decimal [of "nat (j + 1)"] assms
  by (simp add: fileName_def String_of_def)

lemma hospital_job:
  "fst (submit_checks hospital_request)
     = Some ([SYMBOL_CATEGORIES ! 1, SYMBOL_CATEGORIES ! 3, SYMBOL_CATEGORIES ! 4], 7, 28)"
  by (simp add: submit_checks_def hospital_request_def ready_page_def string_defs bound_defs Let_def
        SYMBOL_CATEGORIES_def)

text \<open>
  C8. The folder of the category at position \<open>k\<close> (from 0) of the selected
  categories is named by \<open>k + 1\<close> in two decimal digits, an underscore and the
  slugified key; the file of the icon with index \<open>j\<close> (from 0) by \<open>j + 1\<close> in four
  decimal digits and \<open>.png\<close>: the third category with key \<open>hospital\<close> gives
  \<open>03_hospital\<close>, the seventh icon \<open>0007.png\<close>. In a run that the checks accepted,
  with nobody cancelling, the selected categories are the registry filtered by the
  selection, in registry order, and the archive receives for each of them in turn the
  folder of its position and then the files \<open>1\<close> to \<open>n\<close> in it.
\<close>

theorem naming_law:
  "folderName 2 ''hospital'' = ''03_hospital''
   \<and> fileName 6 = ''0007.png''
   \<and> (k < 99 \<longrightarrow>
        folderName k name
          = [digit_char (Suc k div 10), digit_char (Suc k mod 10)] @ ''_'' @ slugify name)
   \<and> (0 \<le> j \<and> j < 9999 \<longrightarrow>
        fileName j
          = [digit_char (nat (j + 1) div 1000), digit_char (nat (j + 1) div 100 mod 10),
             digit_char (nat (j + 1) div 10 mod 10), digit_char (nat (j + 1) mod 10)] @ ''.png'')
   \<and> (fst (submit_checks req) = Some (cs, n, px) \<and> canvas_ok (engine req)
        \<and> (\<forall>y. \<not> cancel_clicked E y) \<and> (\<forall>f. \<not> folder_null E f)
       \<longrightarrow> cs = filter (\<lambda>category. cid category \<in> selectedCategories req) SYMBOL_CATEGORIES
           \<and> (\<exists>s'. category_loop E (length cs) n px 0 cs (snd (submit_checks req)) = (None, s')
                  \<and> archive_paths (page.zip s')
                      = concat (map (\<lambda>(k, c). (folderName k (key c) @ ''/'')
                                     # map (\<lambda>j. folderName k (key c) @ ''/'' @ fileName j) [0..n - 1])
                                  (enumerate 0 cs))))"
proof (intro conjI impI)
  show "folderName 2 ''hospital'' = ''03_hospital''"
    by (simp add: folderName_digits digit_char_def slugify_def trim_def is_word_def is_space_def
          is_digit_def toLowerCase_def)
  show "fileName 6 = ''0007.png''"
    by (simp add: fileName_digits digit_char_def)
next
  assume "k < 99"
  then show "folderName k name
          = [digit_char (Suc k div 10), digit_char (Suc k mod 10)] @ ''_'' @ slugify name"
    by (rule folderName_digits)
next
  assume "0 \<le> j \<and> j < 9999"
  then show "fileName j
          = [digit_char (nat (j + 1) div 1000), digit_char (nat (j + 1) div 100 mod 10),
             digit_char (nat (j + 1) div 10 mod 10), digit_char (nat (j + 1) mod 10)] @ ''.png''"
    by (simp add: fileName_digits)
next
  assume a: "fst (submit_checks req) = Some (cs, n, px) \<and> canvas_ok (engine req)
        \<and> (\<forall>y. \<not> cancel_clicked E y) \<and> (\<forall>f. \<not> folder_null E f)"
  then have job: "fst (submit_checks req) = Some (cs, n, px)" by simp
  show cs: "cs = filter (\<lambda>category. cid category \<in> selectedCategories req) SYMBOL_CATEGORIES"
    by (rule submit_checks_job(1) [OF job])
  have valid: "\<forall>c \<in> set cs. cid c < length SYMBOL_CATEGORIES"
    using registry_valid by (simp add: cs)
  have ok: "canvas_ok (engine (snd (submit_checks req)))"
    using a by (simp add: submit_checks_job(4) [OF job])
  from category_loop_quiet [OF _ _ valid submit_checks_job(3) [OF job] ok, of E "length cs" n px 0] a
  have "\<exists>s'. category_loop E (length cs) n px 0 cs (snd (submit_checks req)) = (None, s')
           \<and> \<not> cancelRequested s' \<and> canvas_ok (engine s')
           \<and> archive_paths (page.zip s')
                      = concat (map (\<lambda>(k, c). (folderName k (key c) @ ''/'')
                                     # map (\<lambda>j. folderName k (key c) @ ''/'' @ fileName j) [0..n - 1])
                                  (enumerate 0 cs))"
    by (simp add: submit_checks_job(2) [OF job])
  then show "\<exists>s'. category_loop E (length cs) n px 0 cs (snd (submit_checks req)) = (None, s')
                  \<and> archive_paths (page.zip s')
                      = concat (map (\<lambda>(k, c). (folderName k (key c) @ ''/'')
                                     # map (\<lambda>j. folderName k (key c) @ ''/'' @ fileName j) [0..n - 1])
                                  (enumerate 0 cs))"
    by blast
qed

theorem naming_law_witness:
  "archive_paths (page.zip (snd (category_loop quiet_world 3 7 28 0
       [SYMBOL_CATEGORIES ! 1, SYMBOL_CATEGORIES ! 3, SYMBOL_CATEGORIES ! 4]
       (snd (submit_checks hospital_request)))))
   = [''01_police-box/'',
      ''01_police-box/0001.png'', ''01_police-box/0002.png'', ''01_police-box/0003.png'',
      ''01_police-box/0004.png'', ''01_police-box/0005.png'', ''01_police-box/0006.png'',
      ''01_police-box/0007.png'',
      ''02_post-office/'',
      ''02_post-office/0001.png'', ''02_post-office/0002.png'', ''02_post-office/0003.png'',
      ''02_post-office/0004.png'', ''02_post-office/0005.png'', ''02_post-office/0006.png'',
      ''02_post-office/0007.png'',
      ''03_hospital/'',
      ''03_hospital/0001.png'', ''03_hospital/0002.png'', ''03_hospital/0003.png'',
      ''03_hospital/0004.png'', ''03_hospital/0005.png'', ''03_hospital/0006.png'',
      ''03_hospital/0007.png'']"
proof -
  let ?cs = "[SYMBOL_CATEGORIES ! 1, SYMBOL_CATEGORIES ! 3, SYMBOL_CATEGORIES ! 4]"
  have hyp: "fst (submit_checks hospital_request) = Some (?cs, 7, 28)
        \<and> canvas_ok (engine hospital_request)
        \<and> (\<forall>y. \<not> cancel_clicked quiet_world y) \<and> (\<forall>f. \<not> folder_null quiet_world f)"
    by (simp add: hospital_job)
       (simp add: hospital_request_def ready_page_def sample_sketch_def quiet_world_def
          nobody_def never_def)
  note run_part = naming_law [where req = hospital_request and cs = ?cs and n = 7 and px = 28
      and E = quiet_world, THEN conjunct2, THEN conjunct2, THEN conjunct2, THEN conjunct2, THEN mp]
  from run_part [OF hyp]
  obtain s' where run: "category_loop quiet_world (length ?cs) 7 28 0 ?cs
       (snd (submit_checks hospital_request)) = (None, s')"
    and paths: "archive_paths (page.zip s')
                  = concat (map (\<lambda>(k, c). (folderName k (key c) @ ''/'')
                                 # map (\<lambda>j. folderName k (key c) @ ''/'' @ fileName j) [0..7 - 1])
                              (enumerate 0 ?cs))"
    by blast
  have len: "length ?cs = 3"
    by simp
  have keys: "key (SYMBOL_CATEGORIES ! Suc 0) = ''police-box''"
    "key (SYMBOL_CATEGORIES ! 3) = ''post-office''"
    "key (SYMBOL_CATEGORIES ! 4) = ''hospital''"
    by (simp_all add: SYMBOL_CATEGORIES_def)
  have range: "[0..7 - 1] = [0, 1, 2, 3, 4, 5, 6 :: int]"
    by (simp add: upto_rec1)
  show ?thesis
    unfolding run [unfolded len] snd_conv paths range
    by (simp add: keys folderName_digits fileName_digits digit_char_def slugify_def trim_def
          is_word_def is_space_def is_digit_def toLowerCase_def)
qed

end
